theory Spec2Isabelle
  imports Main
begin

section \<open>TwoPhaser: two-phase commit of a single file\<close>

text \<open>
  A shallow embedding of \<^verbatim>\<open>utils/TwoPhaser.py\<close>. The class \<^verbatim>\<open>TwoPhaser\<close> is a context
  manager that writes to a temporary file and promotes it on a clean exit, keeping the
  previous primary as a backup. Its methods mutate the object and the file system; here
  they take the object and the file system and return both.
\<close>

subsection \<open>Paths\<close>

text \<open>
  A \<^verbatim>\<open>pathlib.Path\<close>, as far as the program looks at it: its \<^verbatim>\<open>parent\<close> (the directory
  components) and its \<^verbatim>\<open>name\<close> (the final component).
\<close>

record path =
  parent :: "string list"
  name :: string

text \<open>\<^verbatim>\<open>parent / s\<close>: the entry called \<open>s\<close> in the directory \<open>parent\<close>.\<close>

definition join_path :: "string list \<Rightarrow> string \<Rightarrow> path" where
  "join_path d s = \<lparr>parent = d, name = s\<rparr>"

text \<open>
  Lines 112-116 of \<^verbatim>\<open>__enter__\<close>:
  \<^verbatim>\<open>
  self._primary_path = primary_path
  self._backup_path = primary_path.parent / (primary_path.name + '.bak')
  self._temporary_path = primary_path.parent / (primary_path.name + '.tmp')
  probe_path = primary_path.parent / (primary_path.name + '.prb')
  \<close>
\<close>

definition backup_of :: "path \<Rightarrow> path" where
  "backup_of p = join_path (parent p) (name p @ ''.bak'')"

definition temporary_of :: "path \<Rightarrow> path" where
  "temporary_of p = join_path (parent p) (name p @ ''.tmp'')"

definition probe_of :: "path \<Rightarrow> path" where
  "probe_of p = join_path (parent p) (name p @ ''.prb'')"

subsection \<open>Exceptions, open configurations, file objects\<close>

datatype exn =
    FileNotFoundError
  | FileExistsError
  | ValueError
  | UnsupportedOperation
  | WritableMismatch
  | CallerError string

text \<open>
  The arguments after the path (\<^verbatim>\<open>self._args[1:]\<close> and \<^verbatim>\<open>self._kwargs\<close>) are handed to
  \<^verbatim>\<open>Path.open\<close> as they are. What the program can observe of them is how the open
  behaves: the base mode (\<^verbatim>\<open>'r'\<close>, also the default, \<^verbatim>\<open>'w'\<close>, \<^verbatim>\<open>'a'\<close>, \<^verbatim>\<open>'x'\<close>), whether the
  mode has a \<^verbatim>\<open>'+'\<close> (updating), or that the arguments are rejected by \<^verbatim>\<open>open\<close> itself
  (\<^verbatim>\<open>ValueError\<close>, for example \<^verbatim>\<open>'z'\<close> or \<^verbatim>\<open>'rw'\<close>). Text or binary, buffering and encoding
  change neither which files exist nor \<^verbatim>\<open>writable()\<close>.
\<close>

datatype base_mode = ModeR | ModeW | ModeA | ModeX

datatype open_config = Mode base_mode bool | BadArgs

type_synonym content = string

record file_obj =
  fpath :: path
  fwritable :: bool

text \<open>
  The world outside the object: the regular files by path with their content, the file
  objects that are open (by path, one entry for each open), and the warnings logged so
  far (\<^verbatim>\<open>logger.debug\<close> lines are left out). Directories, permissions and full disks are
  not part of this model: the only failures of the file system calls are those of
  Python's documentation for files that are there or not there.
\<close>

datatype warning =
    TemporaryExists path
  | RemovingTemporary
  | RollingForward
  | FirstPrimaryNotCreated
  | ReadingFromBackup path

record world =
  files :: "path \<rightharpoonup> content"
  open_files :: "path list"
  warnings :: "warning list"

definition exists_path :: "path \<Rightarrow> world \<Rightarrow> bool" where
  "exists_path q w = (files w q \<noteq> None)"

text \<open>\<^verbatim>\<open>Path.unlink()\<close>; \<open>None\<close> is \<^verbatim>\<open>FileNotFoundError\<close>, its only failure here.\<close>

definition unlink :: "path \<Rightarrow> world \<Rightarrow> world option" where
  "unlink q w =
     (if exists_path q w then Some (w\<lparr>files := (files w)(q := None)\<rparr>) else None)"

text \<open>
  \<^verbatim>\<open>Path.rename(target)\<close>; \<open>None\<close> is \<^verbatim>\<open>FileNotFoundError\<close> (no source). An existing
  target is replaced, as on POSIX.
\<close>

definition rename_path :: "path \<Rightarrow> path \<Rightarrow> world \<Rightarrow> world option" where
  "rename_path src dst w =
     (if exists_path src w
      then Some (w\<lparr>files := ((files w)(src := None))(dst := files w src)\<rparr>)
      else None)"

definition warn :: "warning \<Rightarrow> world \<Rightarrow> world" where
  "warn m w = w\<lparr>warnings := warnings w @ [m]\<rparr>"

text \<open>The file object handed out by a successful open; it is open from then on.\<close>

definition opened :: "path \<Rightarrow> bool \<Rightarrow> world \<Rightarrow> exn + (file_obj \<times> world)" where
  "opened q wr w = Inr (\<lparr>fpath = q, fwritable = wr\<rparr>, w\<lparr>open_files := q # open_files w\<rparr>)"

definition create_empty :: "path \<Rightarrow> world \<Rightarrow> world" where
  "create_empty q w = w\<lparr>files := (files w)(q \<mapsto> [])\<rparr>"

text \<open>
  \<^verbatim>\<open>Path.open(*remaining_args, **kwargs)\<close>:
  \<^item> \<^verbatim>\<open>'r'\<close>, \<^verbatim>\<open>'r+'\<close>: the file must exist (\<^verbatim>\<open>FileNotFoundError\<close>); nothing is created;
    only \<^verbatim>\<open>'r+'\<close> is writable;
  \<^item> \<^verbatim>\<open>'w'\<close>, \<^verbatim>\<open>'w+'\<close>: the file is created, or truncated;
  \<^item> \<^verbatim>\<open>'a'\<close>, \<^verbatim>\<open>'a+'\<close>: the file is created when missing, and kept otherwise;
  \<^item> \<^verbatim>\<open>'x'\<close>, \<^verbatim>\<open>'x+'\<close>: the file must not exist (\<^verbatim>\<open>FileExistsError\<close>), and is created;
  \<^item> arguments that \<^verbatim>\<open>open\<close> rejects raise \<^verbatim>\<open>ValueError\<close> before any file is touched.
\<close>

fun path_open :: "path \<Rightarrow> open_config \<Rightarrow> world \<Rightarrow> exn + (file_obj \<times> world)" where
  "path_open q BadArgs w = Inl ValueError"
| "path_open q (Mode ModeR upd) w =
     (if exists_path q w then opened q upd w else Inl FileNotFoundError)"
| "path_open q (Mode ModeW upd) w = opened q True (create_empty q w)"
| "path_open q (Mode ModeA upd) w =
     (if exists_path q w then opened q True w else opened q True (create_empty q w))"
| "path_open q (Mode ModeX upd) w =
     (if exists_path q w then Inl FileExistsError else opened q True (create_empty q w))"

text \<open>\<^verbatim>\<open>f.close()\<close>.\<close>

definition file_close :: "file_obj \<Rightarrow> world \<Rightarrow> world" where
  "file_close f w = w\<lparr>open_files := remove1 (fpath f) (open_files w)\<rparr>"

text \<open>
  \<^verbatim>\<open>f.write(x)\<close> and \<^verbatim>\<open>f.read()\<close>, for the caller's block. A handle that is not writable
  raises \<^verbatim>\<open>io.UnsupportedOperation\<close>; a writable one appends at its position, the end of
  what it wrote so far. A file unlinked while open takes the data with it.
\<close>

definition file_write :: "file_obj \<Rightarrow> content \<Rightarrow> world \<Rightarrow> exn + world" where
  "file_write f x w =
     (if fwritable f
      then (case files w (fpath f) of
              None \<Rightarrow> Inr w
            | Some c \<Rightarrow> Inr (w\<lparr>files := (files w)(fpath f \<mapsto> c @ x)\<rparr>))
      else Inl UnsupportedOperation)"

definition file_read :: "file_obj \<Rightarrow> world \<Rightarrow> content" where
  "file_read f w = (case files w (fpath f) of None \<Rightarrow> [] | Some c \<Rightarrow> c)"

subsection \<open>The TwoPhaser object\<close>

text \<open>
  \<^verbatim>\<open>self._args\<close> with \<^verbatim>\<open>self._kwargs\<close> (the primary path and the open configuration),
  \<^verbatim>\<open>self._file\<close> and \<^verbatim>\<open>self._writable\<close>. Python creates \<^verbatim>\<open>_writable\<close> when the probe
  assigns it, and reads it only after that; the record holds \<open>False\<close> until then. The
  three path attributes are assigned once, first thing in \<^verbatim>\<open>__enter__\<close>, from
  \<^verbatim>\<open>self._args[0]\<close>, so they are functions of the arguments.
\<close>

record two_phaser =
  tp_args :: "path \<times> open_config"
  tp_file :: "file_obj option"
  tp_writable :: bool

definition primary_path :: "two_phaser \<Rightarrow> path" where
  "primary_path s = fst (tp_args s)"

definition backup_path :: "two_phaser \<Rightarrow> path" where
  "backup_path s = backup_of (fst (tp_args s))"

definition temporary_path :: "two_phaser \<Rightarrow> path" where
  "temporary_path s = temporary_of (fst (tp_args s))"

definition probe_path :: "two_phaser \<Rightarrow> path" where
  "probe_path s = probe_of (fst (tp_args s))"

definition remaining_args :: "two_phaser \<Rightarrow> open_config" where
  "remaining_args s = snd (tp_args s)"

text \<open>\<^verbatim>\<open>two_phase_open(*args, **kwargs)\<close> and \<^verbatim>\<open>TwoPhaser.__init__\<close>.\<close>

definition two_phase_open :: "path \<Rightarrow> open_config \<Rightarrow> two_phaser" where
  "two_phase_open p cfg = \<lparr>tp_args = (p, cfg), tp_file = None, tp_writable = False\<rparr>"

text \<open>
  \<^verbatim>\<open>_safe_delete\<close> and \<^verbatim>\<open>_safe_rename\<close>: the call, with \<^verbatim>\<open>FileNotFoundError\<close> passed over.
\<close>

definition safe_delete :: "path \<Rightarrow> world \<Rightarrow> world" where
  "safe_delete q w = (case unlink q w of None \<Rightarrow> w | Some w' \<Rightarrow> w')"

definition safe_rename :: "path \<Rightarrow> path \<Rightarrow> world \<Rightarrow> world" where
  "safe_rename src dst w = (case rename_path src dst w of None \<Rightarrow> w | Some w' \<Rightarrow> w')"

text \<open>
  \<^verbatim>\<open>_recover\<close> (lines 169-186). The \<^verbatim>\<open>elif\<close> that renamed a lone backup to the primary is
  commented out in the source, so there is no branch for it.
\<close>

definition recover :: "two_phaser \<Rightarrow> world \<Rightarrow> world" where
  "recover s w =
     (if exists_path (temporary_path s) w then
        (let w1 = warn (TemporaryExists (temporary_path s)) w in
         if exists_path (primary_path s) w1 then
           safe_delete (temporary_path s) (warn RemovingTemporary w1)
         else if exists_path (backup_path s) w1 then
           safe_rename (temporary_path s) (primary_path s) (warn RollingForward w1)
         else
           safe_delete (temporary_path s) (warn FirstPrimaryNotCreated w1))
      else w)"

text \<open>
  \<^verbatim>\<open>_close(normal)\<close> (lines 157-168).
\<close>

definition close :: "two_phaser \<Rightarrow> bool \<Rightarrow> world \<Rightarrow> two_phaser \<times> world" where
  "close s normal w =
     (case tp_file s of
        None \<Rightarrow> (s, w)
      | Some f \<Rightarrow>
          (let w1 = file_close f w;
               s1 = s\<lparr>tp_file := None\<rparr>
           in if tp_writable s1 then
                (if normal then
                   (let w2 = (if exists_path (primary_path s1) w1
                              then safe_rename (primary_path s1) (backup_path s1)
                                     (safe_delete (backup_path s1) w1)
                              else w1)
                    in (s1, safe_rename (temporary_path s1) (primary_path s1) w2))
                 else (s1, safe_delete (temporary_path s1) w1))
              else (s1, w1)))"

text \<open>
  The probe, lines 117-125 of \<^verbatim>\<open>__enter__\<close>:
  \<^verbatim>\<open>
  try:
      try:
          with probe_path.open(*remaining_args, **kwargs) as f1:
              self._writable = f1.writable()
      finally:
          if probe_path.exists():
              probe_path.unlink()
  except FileNotFoundError:
      self._writable = False
  \<close>
  The result is the value assigned to \<^verbatim>\<open>self._writable\<close>, or the exception that leaves
  \<^verbatim>\<open>__enter__\<close>. The \<^verbatim>\<open>finally\<close> block runs in both cases, and a \<^verbatim>\<open>FileNotFoundError\<close>
  from it would be caught by the outer \<^verbatim>\<open>except\<close> like one from the open.
\<close>

definition probe :: "two_phaser \<Rightarrow> world \<Rightarrow> (exn + bool) \<times> world" where
  "probe s w =
     (let (r1, w1) =
            (case path_open (probe_path s) (remaining_args s) w of
               Inl e \<Rightarrow> (Inl e, w)
             | Inr (f1, w') \<Rightarrow> (Inr (fwritable f1), file_close f1 w'));
          (r2, w2) =
            (if exists_path (probe_path s) w1 then
               (case unlink (probe_path s) w1 of
                  None \<Rightarrow> (Inl FileNotFoundError, w1)
                | Some w' \<Rightarrow> (r1, w'))
             else (r1, w1))
      in (case r2 of
            Inl FileNotFoundError \<Rightarrow> (Inr False, w2)
          | Inl e \<Rightarrow> (Inl e, w2)
          | Inr v \<Rightarrow> (Inr v, w2)))"

text \<open>
  The choice of the backing file, lines 132-139 of \<^verbatim>\<open>__enter__\<close>.
\<close>

definition select_path :: "two_phaser \<Rightarrow> world \<Rightarrow> path \<times> world" where
  "select_path s w =
     (if tp_writable s then (temporary_path s, w)
      else if exists_path (backup_path s) w \<and> \<not> exists_path (primary_path s) w then
        (backup_path s, warn (ReadingFromBackup (backup_path s)) w)
      else (primary_path s, w))"

text \<open>
  Lines 141-150 of \<^verbatim>\<open>__enter__\<close>: the open of the backing file is outside the
  \<^verbatim>\<open>try\<close>, so its exception leaves \<^verbatim>\<open>__enter__\<close> as it is; the comparison with the probe
  is inside, and \<^verbatim>\<open>_close(False)\<close> runs before \<^verbatim>\<open>WritableMismatch\<close> is raised again.
\<close>

definition open_backing ::
  "two_phaser \<Rightarrow> path \<Rightarrow> world \<Rightarrow> (exn + file_obj) \<times> two_phaser \<times> world" where
  "open_backing s path_to_use w =
     (case path_open path_to_use (remaining_args s) w of
        Inl e \<Rightarrow> (Inl e, s, w)
      | Inr (f, w1) \<Rightarrow>
          (let s1 = s\<lparr>tp_file := Some f\<rparr>;
               writable_actual = fwritable f
           in if tp_writable s1 \<noteq> writable_actual then
                (let (s2, w2) = close s1 False w1 in (Inl WritableMismatch, s2, w2))
              else (Inr f, s1, w1)))"

text \<open>\<^verbatim>\<open>__enter__\<close>: probe, recover, choose the path, open it.\<close>

definition enter :: "two_phaser \<Rightarrow> world \<Rightarrow> (exn + file_obj) \<times> two_phaser \<times> world" where
  "enter s w =
     (case probe s w of
        (Inl e, w1) \<Rightarrow> (Inl e, s, w1)
      | (Inr v, w1) \<Rightarrow>
          (let s1 = s\<lparr>tp_writable := v\<rparr>;
               w2 = recover s1 w1;
               (path_to_use, w3) = select_path s1 w2
           in open_backing s1 path_to_use w3))"

text \<open>
  \<^verbatim>\<open>__exit__(exception_type, exception_value, trace_back)\<close>: the first component is the
  value returned to the \<^verbatim>\<open>with\<close> statement.
\<close>

definition exit :: "two_phaser \<Rightarrow> exn option \<Rightarrow> world \<Rightarrow> bool \<times> two_phaser \<times> world" where
  "exit s exception w =
     (let (s1, w1) = close s (exception = None) w in (False, s1, w1))"

subsection \<open>The with statement and the caller's block\<close>

text \<open>
  \<^verbatim>\<open>with two_phase_open(p, cfg) as f: block(f)\<close>, by Python's rules: an exception of
  \<^verbatim>\<open>__enter__\<close> propagates and \<^verbatim>\<open>__exit__\<close> is not called; an exception of the block is
  passed to \<^verbatim>\<open>__exit__\<close> and propagates unless that returns true; otherwise \<^verbatim>\<open>__exit__\<close>
  is called with \<^verbatim>\<open>None\<close>. The result is \<open>Inl e\<close> when \<open>e\<close> reaches the caller,
  \<open>Inr (Some v)\<close> when the block finished with \<open>v\<close>, \<open>Inr None\<close> when its exception was
  suppressed.
\<close>

definition with_two_phase_open ::
  "path \<Rightarrow> open_config \<Rightarrow> (file_obj \<Rightarrow> world \<Rightarrow> (exn + 'a) \<times> world) \<Rightarrow> world
     \<Rightarrow> (exn + 'a option) \<times> world" where
  "with_two_phase_open p cfg block w =
     (case enter (two_phase_open p cfg) w of
        (Inl e, s1, w1) \<Rightarrow> (Inl e, w1)
      | (Inr f, s1, w1) \<Rightarrow>
          (case block f w1 of
             (Inl e, w2) \<Rightarrow>
               (case exit s1 (Some e) w2 of
                  (suppress, s2, w3) \<Rightarrow> (if suppress then Inr None else Inl e, w3))
           | (Inr v, w2) \<Rightarrow>
               (case exit s1 None w2 of (suppress, s2, w3) \<Rightarrow> (Inr (Some v), w3))))"

text \<open>The blocks of the tests: \<^verbatim>\<open>f.write(x)\<close> and \<^verbatim>\<open>text = f.read()\<close>.\<close>

definition write_block :: "content \<Rightarrow> file_obj \<Rightarrow> world \<Rightarrow> (exn + unit) \<times> world" where
  "write_block x f w = (case file_write f x w of Inl e \<Rightarrow> (Inl e, w) | Inr w' \<Rightarrow> (Inr (), w'))"

definition read_block :: "file_obj \<Rightarrow> world \<Rightarrow> (exn + content) \<times> world" where
  "read_block f w = (Inr (file_read f w), w)"

text \<open>
  A block that writes through its handle (or not at all) and then raises: the shape of
  a write scope that fails.
\<close>

definition failing_block :: "content \<Rightarrow> exn \<Rightarrow> file_obj \<Rightarrow> world \<Rightarrow> (exn + unit) \<times> world" where
  "failing_block x e f w =
     (case file_write f x w of Inl e' \<Rightarrow> (Inl e', w) | Inr w' \<Rightarrow> (Inl e, w'))"

text \<open>
  Sessions one after another, each writing one content under its own configuration,
  up to the first one that fails.
\<close>

fun write_all :: "path \<Rightarrow> (open_config \<times> content) list \<Rightarrow> world \<Rightarrow> exn option \<times> world" where
  "write_all p [] w = (None, w)"
| "write_all p ((cfg, x) # rest) w =
     (case with_two_phase_open p cfg (write_block x) w of
        (Inl e, w') \<Rightarrow> (Some e, w')
      | (Inr v, w') \<Rightarrow> write_all p rest w')"

subsection \<open>Blocks that stay with their handle, and a concrete file system\<close>

text \<open>
  The caller's block is any code. What the properties of a session need of it is that it
  reaches the file system through the handle it was given only: every other path is as
  it was when the block ends.
\<close>

definition confined :: "(file_obj \<Rightarrow> world \<Rightarrow> (exn + 'a) \<times> world) \<Rightarrow> bool" where
  "confined block = (\<forall>f w q. q \<noteq> fpath f \<longrightarrow> files (snd (block f w)) q = files w q)"

text \<open>A world with the given files, nothing open and nothing logged; a primary path.\<close>

definition world_of :: "(path \<times> content) list \<Rightarrow> world" where
  "world_of kvs = \<lparr>files = map_of kvs, open_files = [], warnings = []\<rparr>"

definition cache :: path where
  "cache = \<lparr>parent = [''var''], name = ''cache''\<rparr>"

text \<open>
  The two results of \<^verbatim>\<open>__enter__\<close> that the caller's block sees: the handle, and the
  world at the moment it is handed over.
\<close>

definition session_handle :: "path \<Rightarrow> open_config \<Rightarrow> world \<Rightarrow> exn + file_obj" where
  "session_handle p cfg w = fst (enter (two_phase_open p cfg) w)"

definition session_start :: "path \<Rightarrow> open_config \<Rightarrow> world \<Rightarrow> world" where
  "session_start p cfg w = snd (snd (enter (two_phase_open p cfg) w))"

section \<open>Properties\<close>

subsection \<open>The four paths, and the file system calls\<close>

text \<open>The backup, temporary and probe paths differ from the primary and from each other.\<close>

lemma paths_distinct [simp]:
  "backup_of p \<noteq> p" "p \<noteq> backup_of p"
  "temporary_of p \<noteq> p" "p \<noteq> temporary_of p"
  "probe_of p \<noteq> p" "p \<noteq> probe_of p"
  "backup_of p \<noteq> temporary_of p" "temporary_of p \<noteq> backup_of p"
  "backup_of p \<noteq> probe_of p" "probe_of p \<noteq> backup_of p"
  "temporary_of p \<noteq> probe_of p" "probe_of p \<noteq> temporary_of p"
  by (cases p; simp add: backup_of_def temporary_of_def probe_of_def join_path_def)+

lemmas path_defs = primary_path_def backup_path_def temporary_path_def probe_path_def
  remaining_args_def

lemma safe_delete_eq: "safe_delete q w = w\<lparr>files := (files w)(q := None)\<rparr>"
  by (simp add: safe_delete_def unlink_def exists_path_def fun_upd_idem)

lemma safe_rename_eq:
  "safe_rename a b w =
     (if files w a = None then w else w\<lparr>files := (files w)(a := None, b := files w a)\<rparr>)"
  by (simp add: safe_rename_def rename_path_def exists_path_def)

lemma path_open_Inr:
  assumes "path_open q cfg w = Inr (f, w')"
  shows "fpath f = q" and "open_files w' = q # open_files w" and "warnings w' = warnings w"
    and "files w' q \<noteq> None" and "q' \<noteq> q \<Longrightarrow> files w' q' = files w q'"
    and "files w q \<noteq> None \<Longrightarrow> cfg = Mode ModeR upd \<Longrightarrow> files w' = files w"
  using assms
  by (cases cfg; cases "case cfg of Mode b u \<Rightarrow> b";
      auto simp: opened_def create_empty_def exists_path_def split: if_splits)+

lemma probe_world: "snd (probe s w) = w\<lparr>files := (files w)(probe_path s := None)\<rparr>"
proof (cases "remaining_args s")
  case BadArgs
  then show ?thesis
    by (simp add: probe_def unlink_def exists_path_def fun_upd_idem)
next
  case (Mode b u)
  then show ?thesis
    by (cases b)
       (simp_all add: probe_def unlink_def exists_path_def opened_def create_empty_def
          file_close_def fun_upd_idem)
qed

lemma probe_verdict:
  "fst (probe s w) =
     (case remaining_args s of
        BadArgs \<Rightarrow> Inl ValueError
      | Mode ModeR u \<Rightarrow> Inr (u \<and> files w (probe_path s) \<noteq> None)
      | Mode ModeW u \<Rightarrow> Inr True
      | Mode ModeA u \<Rightarrow> Inr True
      | Mode ModeX u \<Rightarrow> (if files w (probe_path s) \<noteq> None then Inl FileExistsError else Inr True))"
proof (cases "remaining_args s")
  case BadArgs
  then show ?thesis
    by (simp add: probe_def unlink_def exists_path_def)
next
  case (Mode b u)
  then show ?thesis
    by (cases b)
       (auto simp add: probe_def unlink_def exists_path_def opened_def create_empty_def
          file_close_def)
qed


lemma recover_writable_irrelevant [simp]:
  "recover (s\<lparr>tp_writable := v\<rparr>) w = recover s w"
  by (simp add: recover_def path_defs Let_def)

lemma recover_world:
  "recover s w =
     (let P = primary_path s; B = backup_path s; T = temporary_path s in
      if files w T = None then w
      else if files w P \<noteq> None then
        w\<lparr>files := (files w)(T := None),
          warnings := warnings w @ [TemporaryExists T, RemovingTemporary]\<rparr>
      else if files w B \<noteq> None then
        w\<lparr>files := (files w)(T := None, P := files w T),
          warnings := warnings w @ [TemporaryExists T, RollingForward]\<rparr>
      else
        w\<lparr>files := (files w)(T := None),
          warnings := warnings w @ [TemporaryExists T, FirstPrimaryNotCreated]\<rparr>)"
  by (simp add: recover_def Let_def exists_path_def warn_def safe_delete_eq safe_rename_eq)

lemma recover_temporary: "files (recover s w) (temporary_path s) = None"
  by (simp add: recover_world Let_def path_defs)

lemma recover_backup: "files (recover s w) (backup_path s) = files w (backup_path s)"
  by (simp add: recover_world Let_def path_defs)

lemma recover_probe: "files (recover s w) (probe_path s) = files w (probe_path s)"
  by (simp add: recover_world Let_def path_defs)

lemma recover_primary:
  "files (recover s w) (primary_path s) =
     (if files w (temporary_path s) \<noteq> None \<and> files w (primary_path s) = None
         \<and> files w (backup_path s) \<noteq> None
      then files w (temporary_path s) else files w (primary_path s))"
  by (simp add: recover_world Let_def path_defs)

lemma recover_open_files: "open_files (recover s w) = open_files w"
  by (simp add: recover_world Let_def)

lemma close_world:
  assumes "tp_file s = Some f"
  shows "close s normal w =
     (s\<lparr>tp_file := None\<rparr>,
      w\<lparr>open_files := remove1 (fpath f) (open_files w),
        files :=
          (let P = primary_path s; B = backup_path s; T = temporary_path s in
           if \<not> tp_writable s then files w
           else if \<not> normal then (files w)(T := None)
           else if files w P \<noteq> None then (files w)(B := files w P, P := files w T, T := None)
           else (files w)(P := files w T, T := None))\<rparr>)"
  using assms
  by (auto simp: close_def Let_def exists_path_def file_close_def safe_delete_eq
        safe_rename_eq path_defs fun_upd_twist fun_upd_idem)

lemma close_no_file: "tp_file s = None \<Longrightarrow> close s normal w = (s, w)"
  by (simp add: close_def)

lemma enter_probe_failed:
  "fst (probe s w) = Inl e \<Longrightarrow> enter s w = (Inl e, s, snd (probe s w))"
  by (cases "probe s w") (simp add: enter_def)

lemma enter_probe_verdict:
  "fst (probe s w) = Inr v \<Longrightarrow>
   enter s w =
     (let s1 = s\<lparr>tp_writable := v\<rparr>;
          w2 = recover s (snd (probe s w))
      in open_backing s1 (fst (select_path s1 w2)) (snd (select_path s1 w2)))"
  by (cases "probe s w") (simp add: enter_def Let_def case_prod_beta)


subsection \<open>Entering a session\<close>

lemma path_open_created:
  assumes "path_open q cfg w = Inr (f, w')" and "files w q = None"
  shows "files w' = (files w)(q \<mapsto> [])"
proof (cases cfg)
  case BadArgs
  then show ?thesis using assms by simp
next
  case (Mode b u)
  then show ?thesis using assms
    by (cases b) (auto simp: opened_def create_empty_def exists_path_def)
qed

lemma path_open_readonly:
  assumes "path_open q cfg w = Inr (f, w')" and "\<not> fwritable f"
  shows "files w' = files w" and "cfg = Mode ModeR False"
proof -
  show "files w' = files w"
  proof (cases cfg)
    case BadArgs
    then show ?thesis using assms by simp
  next
    case (Mode b u)
    then show ?thesis using assms
      by (cases b) (auto simp: opened_def create_empty_def exists_path_def split: if_splits)
  qed
  show "cfg = Mode ModeR False"
  proof (cases cfg)
    case BadArgs
    then show ?thesis using assms by simp
  next
    case (Mode b u)
    then show ?thesis using assms
      by (cases b) (auto simp: opened_def create_empty_def exists_path_def split: if_splits)
  qed
qed

lemma open_backing_Inr:
  assumes "fst (open_backing s q w) = Inr f"
  shows "path_open q (remaining_args s) w = Inr (f, snd (snd (open_backing s q w)))"
    and "fst (snd (open_backing s q w)) = s\<lparr>tp_file := Some f\<rparr>"
    and "fwritable f = tp_writable s"
  using assms
  by (auto simp: open_backing_def Let_def case_prod_beta split: sum.splits if_splits)

lemma open_backing_Inl:
  assumes "path_open q (remaining_args s) w = Inl e"
  shows "open_backing s q w = (Inl e, s, w)"
  using assms by (simp add: open_backing_def)

lemma open_backing_mismatch:
  assumes "path_open q (remaining_args s) w = Inr (f, w1)" and "fwritable f \<noteq> tp_writable s"
  shows "open_backing s q w =
           (Inl WritableMismatch, s\<lparr>tp_file := None\<rparr>,
            snd (close (s\<lparr>tp_file := Some f\<rparr>) False w1))"
  using assms
  by (auto simp: open_backing_def Let_def case_prod_beta close_world [where f = f])

lemma enter_Inr:
  assumes "fst (enter s w) = Inr f"
  shows "fst (probe s w) = Inr (fwritable f)"
    and "fst (snd (enter s w)) = s\<lparr>tp_writable := fwritable f, tp_file := Some f\<rparr>"
proof -
  obtain v where v: "fst (probe s w) = Inr v"
    using assms by (cases "fst (probe s w)") (auto simp: enter_probe_failed)
  let ?s1 = "s\<lparr>tp_writable := v\<rparr>"
  let ?w2 = "recover s (snd (probe s w))"
  have e: "enter s w = open_backing ?s1 (fst (select_path ?s1 ?w2)) (snd (select_path ?s1 ?w2))"
    using v by (simp add: enter_probe_verdict Let_def)
  have "fwritable f = v"
    using assms open_backing_Inr(3) [of ?s1 _ _ f] unfolding e by simp
  then show "fst (probe s w) = Inr (fwritable f)" using v by simp
  show "fst (snd (enter s w)) = s\<lparr>tp_writable := fwritable f, tp_file := Some f\<rparr>"
    using assms open_backing_Inr(2) [of ?s1 _ _ f] \<open>fwritable f = v\<close> unfolding e by simp
qed

lemma select_path_writable:
  "tp_writable s \<Longrightarrow> select_path s w = (temporary_path s, w)"
  by (simp add: select_path_def)

lemma select_path_readonly:
  "\<not> tp_writable s \<Longrightarrow>
   select_path s w =
     (if files w (backup_path s) \<noteq> None \<and> files w (primary_path s) = None
      then (backup_path s, warn (ReadingFromBackup (backup_path s)) w)
      else (primary_path s, w))"
  by (simp add: select_path_def exists_path_def)

lemma enter_writable:
  assumes "fst (enter s w) = Inr f" and "fwritable f"
  shows "fpath f = temporary_path s"
    and "files (snd (snd (enter s w))) = (files (recover s (snd (probe s w))))(temporary_path s \<mapsto> [])"
proof -
  let ?s1 = "s\<lparr>tp_writable := True\<rparr>"
  let ?w2 = "recover s (snd (probe s w))"
  have v: "fst (probe s w) = Inr True"
    using enter_Inr(1) [OF assms(1)] assms(2) by simp
  have e: "enter s w = open_backing ?s1 (temporary_path s) ?w2"
    using v by (simp add: enter_probe_verdict Let_def select_path_writable path_defs)
  have po: "path_open (temporary_path s) (remaining_args s) ?w2 = Inr (f, snd (snd (enter s w)))"
    using open_backing_Inr(1) [of ?s1 "temporary_path s" ?w2 f] assms(1) unfolding e
    by (simp add: path_defs)
  show "fpath f = temporary_path s"
    using path_open_Inr(1) [OF po] .
  have absent: "files ?w2 (temporary_path s) = None" by (rule recover_temporary)
  show "files (snd (snd (enter s w))) = (files ?w2)(temporary_path s \<mapsto> [])"
    using path_open_created [OF po absent] .
qed

lemma enter_readonly:
  assumes "fst (enter s w) = Inr f" and "\<not> fwritable f"
  shows "fpath f =
           (if files (recover s (snd (probe s w))) (backup_path s) \<noteq> None
               \<and> files (recover s (snd (probe s w))) (primary_path s) = None
            then backup_path s else primary_path s)"
    and "files (snd (snd (enter s w))) = files (recover s (snd (probe s w)))"
    and "files (snd (snd (enter s w))) (fpath f) \<noteq> None"
proof -
  let ?s1 = "s\<lparr>tp_writable := False\<rparr>"
  let ?w2 = "recover s (snd (probe s w))"
  let ?q = "fst (select_path ?s1 ?w2)"
  let ?w3 = "snd (select_path ?s1 ?w2)"
  have v: "fst (probe s w) = Inr False"
    using enter_Inr(1) [OF assms(1)] assms(2) by simp
  have e: "enter s w = open_backing ?s1 ?q ?w3"
    using enter_probe_verdict [OF v] by (simp add: Let_def)
  have po: "path_open ?q (remaining_args s) ?w3 = Inr (f, snd (snd (enter s w)))"
    using open_backing_Inr(1) [of ?s1 ?q ?w3 f] assms(1) unfolding e
    by (simp add: path_defs)
  have q: "?q = (if files ?w2 (backup_path s) \<noteq> None \<and> files ?w2 (primary_path s) = None
                 then backup_path s else primary_path s)"
    by (simp add: select_path_readonly path_defs)
  have w3: "files ?w3 = files ?w2"
    by (simp add: select_path_readonly warn_def)
  show "fpath f = (if files ?w2 (backup_path s) \<noteq> None \<and> files ?w2 (primary_path s) = None
                   then backup_path s else primary_path s)"
    using path_open_Inr(1) [OF po] q by simp
  show "files (snd (snd (enter s w))) = files ?w2"
    using path_open_readonly(1) [OF po assms(2)] w3 by simp
  show "files (snd (snd (enter s w))) (fpath f) \<noteq> None"
    using path_open_Inr(4) [OF po] path_open_Inr(1) [OF po] by simp
qed

lemma enter_open_files:
  assumes "fst (enter s w) = Inr f"
  shows "open_files (snd (snd (enter s w))) = fpath f # open_files w"
proof -
  let ?s1 = "s\<lparr>tp_writable := fwritable f\<rparr>"
  let ?w2 = "recover s (snd (probe s w))"
  let ?q = "fst (select_path ?s1 ?w2)"
  let ?w3 = "snd (select_path ?s1 ?w2)"
  have e: "enter s w = open_backing ?s1 ?q ?w3"
    using enter_Inr(1) [OF assms] by (simp add: enter_probe_verdict Let_def)
  have po: "path_open ?q (remaining_args s) ?w3 = Inr (f, snd (snd (enter s w)))"
    using open_backing_Inr(1) [of ?s1 ?q ?w3 f] assms unfolding e
    by (simp add: path_defs)
  have "open_files ?w3 = open_files w"
    by (simp add: select_path_def warn_def recover_open_files probe_world)
  then show ?thesis
    using path_open_Inr(1,2) [OF po] by simp
qed

subsection \<open>The with statement\<close>

lemma two_phase_open_paths [simp]:
  "primary_path (two_phase_open p cfg) = p"
  "backup_path (two_phase_open p cfg) = backup_of p"
  "temporary_path (two_phase_open p cfg) = temporary_of p"
  "probe_path (two_phase_open p cfg) = probe_of p"
  "remaining_args (two_phase_open p cfg) = cfg"
  by (simp_all add: path_defs two_phase_open_def)

lemma paths_of_update [simp]:
  "primary_path (s\<lparr>tp_writable := v\<rparr>) = primary_path s"
  "backup_path (s\<lparr>tp_writable := v\<rparr>) = backup_path s"
  "temporary_path (s\<lparr>tp_writable := v\<rparr>) = temporary_path s"
  "probe_path (s\<lparr>tp_writable := v\<rparr>) = probe_path s"
  "remaining_args (s\<lparr>tp_writable := v\<rparr>) = remaining_args s"
  "primary_path (s\<lparr>tp_file := h\<rparr>) = primary_path s"
  "backup_path (s\<lparr>tp_file := h\<rparr>) = backup_path s"
  "temporary_path (s\<lparr>tp_file := h\<rparr>) = temporary_path s"
  "probe_path (s\<lparr>tp_file := h\<rparr>) = probe_path s"
  "remaining_args (s\<lparr>tp_file := h\<rparr>) = remaining_args s"
  by (simp_all add: path_defs)

lemma with_enter_failed:
  assumes "session_handle p cfg w = Inl e"
  shows "with_two_phase_open p cfg block w = (Inl e, session_start p cfg w)"
  using assms
  by (cases "enter (two_phase_open p cfg) w")
     (simp add: with_two_phase_open_def session_handle_def session_start_def)

lemma with_block_raised:
  assumes "session_handle p cfg w = Inr f"
    and "fst (block f (session_start p cfg w)) = Inl e"
  shows "with_two_phase_open p cfg block w =
           (Inl e, snd (close (two_phase_open p cfg\<lparr>tp_writable := fwritable f, tp_file := Some f\<rparr>)
                          False (snd (block f (session_start p cfg w)))))"
proof -
  have s1: "fst (snd (enter (two_phase_open p cfg) w)) =
              two_phase_open p cfg\<lparr>tp_writable := fwritable f, tp_file := Some f\<rparr>"
    using enter_Inr(2) assms(1) unfolding session_handle_def by blast
  show ?thesis
    using assms s1
    by (cases "enter (two_phase_open p cfg) w"; cases "block f (session_start p cfg w)")
       (simp add: with_two_phase_open_def session_handle_def session_start_def exit_def
          case_prod_beta)
qed

lemma with_block_returned:
  assumes "session_handle p cfg w = Inr f"
    and "fst (block f (session_start p cfg w)) = Inr v"
  shows "with_two_phase_open p cfg block w =
           (Inr (Some v),
            snd (close (two_phase_open p cfg\<lparr>tp_writable := fwritable f, tp_file := Some f\<rparr>)
                   True (snd (block f (session_start p cfg w)))))"
proof -
  have s1: "fst (snd (enter (two_phase_open p cfg) w)) =
              two_phase_open p cfg\<lparr>tp_writable := fwritable f, tp_file := Some f\<rparr>"
    using enter_Inr(2) assms(1) unfolding session_handle_def by blast
  show ?thesis
    using assms s1
    by (cases "enter (two_phase_open p cfg) w"; cases "block f (session_start p cfg w)")
       (simp add: with_two_phase_open_def session_handle_def session_start_def exit_def
          case_prod_beta)
qed

lemma read_primary:
  assumes "files w p = Some c"
  shows "fst (with_two_phase_open p (Mode ModeR False) read_block w) = Inr (Some c)"
proof -
  let ?s = "two_phase_open p (Mode ModeR False)"
  let ?s1 = "?s\<lparr>tp_writable := False\<rparr>"
  let ?w2 = "recover ?s (snd (probe ?s w))"
  let ?f = "\<lparr>fpath = p, fwritable = False\<rparr>"
  have v: "fst (probe ?s w) = Inr False"
    by (simp add: probe_verdict)
  have P: "files ?w2 p = Some c"
    using assms recover_primary [of ?s "snd (probe ?s w)"] by (simp add: probe_world)
  have sel: "select_path ?s1 ?w2 = (p, ?w2)"
    using P by (simp add: select_path_readonly)
  have ob: "open_backing ?s1 p ?w2 =
              (Inr ?f, ?s1\<lparr>tp_file := Some ?f\<rparr>, ?w2\<lparr>open_files := p # open_files ?w2\<rparr>)"
    using P by (simp add: open_backing_def exists_path_def opened_def Let_def)
  have e: "enter ?s w = (Inr ?f, ?s1\<lparr>tp_file := Some ?f\<rparr>, ?w2\<lparr>open_files := p # open_files ?w2\<rparr>)"
    using enter_probe_verdict [OF v] sel ob by (simp add: Let_def)
  have h: "session_handle p (Mode ModeR False) w = Inr ?f"
    by (simp add: session_handle_def e)
  have st: "session_start p (Mode ModeR False) w = ?w2\<lparr>open_files := p # open_files ?w2\<rparr>"
    by (simp add: session_start_def e)
  have b: "fst (read_block ?f (session_start p (Mode ModeR False) w)) = Inr c"
    using P by (simp add: st read_block_def file_read_def)
  show ?thesis
    using with_block_returned [of p "Mode ModeR False" w ?f read_block c, OF h b] by simp
qed

lemmas example_defs = world_of_def cache_def backup_of_def temporary_of_def probe_of_def
  join_path_def two_phase_open_def

lemmas eval_defs = Let_def session_handle_def session_start_def enter_def probe_def recover_def
  select_path_def open_backing_def close_def exit_def with_two_phase_open_def exists_path_def
  unlink_def rename_path_def safe_delete_def safe_rename_def warn_def opened_def
  create_empty_def file_close_def failing_block_def write_block_def read_block_def
  file_write_def file_read_def path_defs example_defs

subsection \<open>Blocks and the start of a writable session\<close>

lemma confined_failing_block: "confined (failing_block x e)"
  by (auto simp: confined_def failing_block_def file_write_def split: option.splits)

lemma confined_write_block: "confined (write_block x)"
  by (auto simp: confined_def write_block_def file_write_def split: option.splits)

lemma confined_read_block: "confined read_block"
  by (simp add: confined_def read_block_def)

lemma session_start_writable:
  assumes "session_handle p cfg w = Inr f" and "fwritable f"
  shows "fpath f = temporary_of p"
    and "files (session_start p cfg w) (backup_of p) = files w (backup_of p)"
    and "files (session_start p cfg w) p =
           (if files w (temporary_of p) \<noteq> None \<and> files w p = None \<and> files w (backup_of p) \<noteq> None
            then files w (temporary_of p) else files w p)"
proof -
  let ?s = "two_phase_open p cfg"
  have h: "fst (enter ?s w) = Inr f" using assms(1) by (simp add: session_handle_def)
  show "fpath f = temporary_of p"
    using enter_writable(1) [OF h assms(2)] by simp
  have st: "files (session_start p cfg w) = (files (recover ?s (snd (probe ?s w))))(temporary_of p \<mapsto> [])"
    using enter_writable(2) [OF h assms(2)] by (simp add: session_start_def)
  show "files (session_start p cfg w) (backup_of p) = files w (backup_of p)"
    using recover_backup [of ?s "snd (probe ?s w)"] by (simp add: st probe_world)
  show "files (session_start p cfg w) p =
           (if files w (temporary_of p) \<noteq> None \<and> files w p = None \<and> files w (backup_of p) \<noteq> None
            then files w (temporary_of p) else files w p)"
    using recover_primary [of ?s "snd (probe ?s w)"] by (simp add: st probe_world)
qed

subsection \<open>A session that fails to start\<close>

lemma select_path_files: "files (snd (select_path s w)) = files w"
  by (simp add: select_path_def warn_def)

lemma select_path_not_temporary:
  "\<not> tp_writable s \<Longrightarrow> fst (select_path s w) \<noteq> temporary_path s"
  by (simp add: select_path_def path_defs)

lemma enter_failed_temporary:
  assumes "fst (probe s w) = Inr v" and "fst (enter s w) = Inl e"
  shows "files (snd (snd (enter s w))) (temporary_path s) = None"
proof -
  let ?s1 = "s\<lparr>tp_writable := v\<rparr>"
  let ?w2 = "recover s (snd (probe s w))"
  let ?q = "fst (select_path ?s1 ?w2)"
  let ?w3 = "snd (select_path ?s1 ?w2)"
  have en: "enter s w = open_backing ?s1 ?q ?w3"
    using enter_probe_verdict [OF assms(1)] by (simp add: Let_def)
  have absent: "files ?w3 (temporary_path s) = None"
    by (simp add: select_path_files recover_temporary)
  show ?thesis
  proof (cases "path_open ?q (remaining_args ?s1) ?w3")
    case (Inl e')
    then show ?thesis
      using absent by (simp add: en open_backing_Inl)
  next
    case (Inr fw)
    obtain f w4 where fw: "fw = (f, w4)" by (cases fw)
    have po: "path_open ?q (remaining_args ?s1) ?w3 = Inr (f, w4)"
      using Inr fw by simp
    have mis: "fwritable f \<noteq> tp_writable ?s1"
    proof
      assume "fwritable f = tp_writable ?s1"
      then have "fst (open_backing ?s1 ?q ?w3) = Inr f"
        using po by (simp add: open_backing_def Let_def)
      then show False using assms(2) en by simp
    qed
    have world: "snd (snd (enter s w)) = snd (close (?s1\<lparr>tp_file := Some f\<rparr>) False w4)"
      using open_backing_mismatch [OF po mis] by (simp add: en)
    show ?thesis
    proof (cases v)
      case True
      then show ?thesis
        by (simp add: world close_world [where f = f] Let_def)
    next
      case False
      then have "?q \<noteq> temporary_path s"
        using select_path_not_temporary [of ?s1 ?w2] by simp
      then have "files w4 (temporary_path s) = None"
        using path_open_Inr(5) [OF po, of "temporary_path s"] absent by simp
      then show ?thesis
        using False by (simp add: world close_world [where f = f] Let_def)
    qed
  qed
qed

subsection \<open>Where the probe and the handle can disagree\<close>

lemma mismatch_needs_read_update:
  assumes "fst (enter s w) = Inl WritableMismatch"
  shows "remaining_args s = Mode ModeR True"
proof -
  have nv: "fst (probe s w) \<noteq> Inl WritableMismatch"
    by (simp add: probe_verdict split: open_config.splits base_mode.splits)
  then obtain v where v: "fst (probe s w) = Inr v"
    using assms by (cases "fst (probe s w)") (auto simp: enter_probe_failed)
  let ?s1 = "s\<lparr>tp_writable := v\<rparr>"
  let ?w2 = "recover s (snd (probe s w))"
  let ?q = "fst (select_path ?s1 ?w2)"
  let ?w3 = "snd (select_path ?s1 ?w2)"
  have en: "enter s w = open_backing ?s1 ?q ?w3"
    using enter_probe_verdict [OF v] by (simp add: Let_def)
  show ?thesis
  proof (cases "remaining_args s")
    case BadArgs
    then show ?thesis using v by (simp add: probe_verdict)
  next
    case (Mode b u)
    show ?thesis
    proof (cases "b = ModeR \<and> u")
      case True
      then show ?thesis using Mode by simp
    next
      case False
      have "fst (open_backing ?s1 ?q ?w3) \<noteq> Inl WritableMismatch"
        using False Mode v
        by (cases b)
           (auto simp: probe_verdict open_backing_def opened_def Let_def select_path_def
              split: if_splits)
      then show ?thesis using assms en by simp
    qed
  qed
qed

subsection \<open>The chosen path and a refused open\<close>

lemma select_path_open_files: "open_files (snd (select_path s w)) = open_files w"
  by (simp add: select_path_def warn_def)

lemma select_path_not_probe: "fst (select_path s w) \<noteq> probe_path s"
  by (simp add: select_path_def path_defs)

lemma path_open_not_found:
  assumes "path_open q cfg w = Inl FileNotFoundError"
  shows "files w q = None" and "\<exists>u. cfg = Mode ModeR u"
proof -
  show "files w q = None"
  proof (cases cfg)
    case BadArgs
    then show ?thesis using assms by simp
  next
    case (Mode b u)
    then show ?thesis using assms
      by (cases b) (auto simp: opened_def exists_path_def split: if_splits)
  qed
  show "\<exists>u. cfg = Mode ModeR u"
  proof (cases cfg)
    case BadArgs
    then show ?thesis using assms by simp
  next
    case (Mode b u)
    then show ?thesis using assms
      by (cases b) (auto simp: opened_def exists_path_def split: if_splits)
  qed
qed

lemma world_files_same [simp]: "files w q = None \<Longrightarrow> w\<lparr>files := (files w)(q := None)\<rparr> = w"
  by (simp add: fun_upd_idem)

subsection \<open>Write sessions one after another\<close>

lemma write_session_success:
  assumes "fst (with_two_phase_open p cfg (write_block x) w) = Inr r"
  shows "files (snd (with_two_phase_open p cfg (write_block x) w)) p = Some x"
    and "files (snd (with_two_phase_open p cfg (write_block x) w)) (temporary_of p) = None"
    and "files w (temporary_of p) = None \<Longrightarrow> files w p = Some y \<Longrightarrow>
         files (snd (with_two_phase_open p cfg (write_block x) w)) (backup_of p) = Some y"
proof -
  let ?W = "with_two_phase_open p cfg (write_block x) w"
  let ?s = "two_phase_open p cfg"
  let ?w1 = "session_start p cfg w"
  obtain f where h: "session_handle p cfg w = Inr f"
    using assms with_enter_failed [of p cfg w _ "write_block x"]
    by (cases "session_handle p cfg w") auto
  have blk: "fst (write_block x f ?w1) = Inr ()"
  proof (cases "fst (write_block x f ?w1)")
    case (Inl e)
    then show ?thesis
      using with_block_raised [of p cfg w f "write_block x" e, OF h Inl] assms by simp
  next
    case (Inr u)
    then show ?thesis by simp
  qed
  have wr: "fwritable f"
    using blk by (auto simp: write_block_def file_write_def split: if_splits)
  have T: "fpath f = temporary_of p"
    using session_start_writable(1) [OF h wr] .
  have h': "fst (enter ?s w) = Inr f" using h by (simp add: session_handle_def)
  have st: "files ?w1 = (files (recover ?s (snd (probe ?s w))))(temporary_of p \<mapsto> [])"
    using enter_writable(2) [OF h' wr] by (simp add: session_start_def)
  let ?w2 = "snd (write_block x f ?w1)"
  have w2: "files ?w2 = (files ?w1)(temporary_of p \<mapsto> x)"
    using wr T by (simp add: write_block_def file_write_def st)
  have res: "?W = (Inr (Some ()),
                   snd (close (?s\<lparr>tp_writable := fwritable f, tp_file := Some f\<rparr>) True ?w2))"
    using h blk by (rule with_block_returned)
  have fin: "files (snd ?W) =
               (if files ?w2 p \<noteq> None
                then (files ?w2)(backup_of p := files ?w2 p, p := files ?w2 (temporary_of p),
                                 temporary_of p := None)
                else (files ?w2)(p := files ?w2 (temporary_of p), temporary_of p := None))"
    unfolding res using wr by (simp add: close_world [where f = f] Let_def)
  show "files (snd ?W) p = Some x"
    by (simp add: fin w2)
  show "files (snd ?W) (temporary_of p) = None"
    by (simp add: fin)
  show "files (snd ?W) (backup_of p) = Some y"
    if "files w (temporary_of p) = None" and "files w p = Some y"
  proof -
    have "files ?w1 p = Some y"
      using session_start_writable(3) [OF h wr] that by simp
    then have "files ?w2 p = Some y"
      by (simp add: w2)
    then show ?thesis
      by (simp add: fin)
  qed
qed

lemma write_all_chain:
  assumes "write_all p sessions w = (None, w')"
    and "sessions \<noteq> []"
    and "files w (temporary_of p) = None" and "files w p = Some y"
  shows "files w' p = Some (snd (last sessions))
       \<and> files w' (backup_of p) = Some (last (y # map snd (butlast sessions)))
       \<and> files w' (temporary_of p) = None"
  using assms
proof (induction sessions arbitrary: w y)
  case Nil
  then show ?case by simp
next
  case (Cons a rest)
  obtain cfg x where a: "a = (cfg, x)" by (cases a)
  let ?W = "with_two_phase_open p cfg (write_block x) w"
  obtain r where ok: "fst ?W = Inr r"
    using Cons.prems(1) a by (cases ?W; cases "fst ?W") auto
  have next_run: "write_all p rest (snd ?W) = (None, w')"
    using Cons.prems(1) a ok by (cases ?W) auto
  have P: "files (snd ?W) p = Some x" and T: "files (snd ?W) (temporary_of p) = None"
    using write_session_success(1,2) [OF ok] by simp_all
  have B: "files (snd ?W) (backup_of p) = Some y"
    using write_session_success(3) [OF ok Cons.prems(3,4)] .
  show ?case
  proof (cases "rest = []")
    case True
    then have "w' = snd ?W" using next_run by simp
    then show ?thesis using True a P T B by simp
  next
    case False
    have "files w' p = Some (snd (last rest))
        \<and> files w' (backup_of p) = Some (last (x # map snd (butlast rest)))
        \<and> files w' (temporary_of p) = None"
      using Cons.IH [OF next_run False T P] .
    then show ?thesis using False a by (cases "butlast rest = []") auto
  qed
qed


lemma last_butlast_nth:
  assumes "2 \<le> length xs"
  shows "last (butlast xs) = xs ! (length xs - 2)"
proof -
  have ne: "butlast xs \<noteq> []"
    using assms by (cases xs; cases "tl xs") auto
  have "last (butlast xs) = butlast xs ! (length (butlast xs) - 1)"
    using ne by (rule last_conv_nth)
  also have "length (butlast xs) - 1 = length xs - 2"
    by simp
  also have "butlast xs ! (length xs - 2) = xs ! (length xs - 2)"
    using assms by (intro nth_butlast) simp
  finally show ?thesis .
qed

lemma write_session_succeeds:
  assumes "cfg = Mode ModeW u \<or> cfg = Mode ModeA u"
  shows "fst (with_two_phase_open p cfg (write_block x) w) = Inr (Some ())"
proof -
  let ?s = "two_phase_open p cfg"
  let ?s1 = "?s\<lparr>tp_writable := True\<rparr>"
  let ?w2 = "recover ?s (snd (probe ?s w))"
  let ?f = "\<lparr>fpath = temporary_of p, fwritable = True\<rparr>"
  have v: "fst (probe ?s w) = Inr True"
    using assms by (auto simp: probe_verdict)
  have absent: "files ?w2 (temporary_of p) = None"
    using recover_temporary [of ?s] by simp
  have po: "path_open (temporary_of p) cfg ?w2 = opened (temporary_of p) True (create_empty (temporary_of p) ?w2)"
    using assms absent by (auto simp: exists_path_def)
  have en: "enter ?s w = open_backing ?s1 (temporary_of p) ?w2"
    using enter_probe_verdict [OF v] by (simp add: Let_def select_path_writable)
  have h: "session_handle p cfg w = Inr ?f"
    unfolding session_handle_def en by (simp add: open_backing_def po opened_def Let_def)
  have blk: "fst (write_block x ?f (session_start p cfg w)) = Inr ()"
    by (simp add: write_block_def file_write_def split: option.splits)
  show ?thesis
    using with_block_returned [of p cfg w ?f "write_block x" "()", OF h blk] by simp
qed

subsection \<open>The temporary file across a session\<close>

lemma probe_raised:
  assumes "fst (probe (two_phase_open p cfg) w) = Inl e"
  shows "e \<noteq> FileNotFoundError"
    and "fst (with_two_phase_open p cfg block w) = Inl e"
    and "files (snd (with_two_phase_open p cfg block w)) (temporary_of p) = files w (temporary_of p)"
proof -
  let ?s = "two_phase_open p cfg"
  show "e \<noteq> FileNotFoundError"
    using assms by (auto simp: probe_verdict split: open_config.splits base_mode.splits if_splits)
  have en: "enter ?s w = (Inl e, ?s, snd (probe ?s w))"
    using assms by (rule enter_probe_failed)
  have h: "session_handle p cfg w = Inl e"
    by (simp add: session_handle_def en)
  have st: "session_start p cfg w = snd (probe ?s w)"
    by (simp add: session_start_def en)
  have r: "with_two_phase_open p cfg block w = (Inl e, snd (probe ?s w))"
    using with_enter_failed [OF h, of block] st by simp
  show "fst (with_two_phase_open p cfg block w) = Inl e"
    by (simp add: r)
  show "files (snd (with_two_phase_open p cfg block w)) (temporary_of p) = files w (temporary_of p)"
    by (simp add: r probe_world)
qed

lemma verdict_session_temporary:
  assumes v: "fst (probe (two_phase_open p cfg) w) = Inr v" and c: "confined block"
  shows "files (snd (with_two_phase_open p cfg block w)) (temporary_of p) = None"
proof (cases "session_handle p cfg w")
  case (Inl e)
  then have "files (session_start p cfg w) (temporary_of p) = None"
    using enter_failed_temporary [OF v, of e]
    by (simp add: session_handle_def session_start_def)
  then show ?thesis
    by (simp add: with_enter_failed [OF Inl])
next
  case (Inr f)
  let ?w1 = "session_start p cfg w"
  let ?w2 = "snd (block f ?w1)"
  let ?s1 = "two_phase_open p cfg\<lparr>tp_writable := fwritable f, tp_file := Some f\<rparr>"
  have h: "fst (enter (two_phase_open p cfg) w) = Inr f"
    using Inr by (simp add: session_handle_def)
  have closed: "files (snd (close ?s1 normal ?w2)) (temporary_of p) = None" for normal
  proof (cases "fwritable f")
    case True
    then show ?thesis
      by (simp add: close_world [where f = f] Let_def)
  next
    case False
    have "fpath f \<noteq> temporary_of p"
      using enter_readonly(1) [OF h False] by (simp split: if_splits)
    then have "files ?w2 (temporary_of p) = files ?w1 (temporary_of p)"
      using c unfolding confined_def by metis
    also have "\<dots> = None"
      using enter_readonly(2) [OF h False] recover_temporary [of "two_phase_open p cfg"]
      by (simp add: session_start_def)
    finally show ?thesis
      using False by (simp add: close_world [where f = f] Let_def)
  qed
  show ?thesis
  proof (cases "fst (block f ?w1)")
    case (Inl e)
    show ?thesis
      using with_block_raised [of p cfg w f block e, OF Inr Inl] closed by simp
  next
    case (Inr x)
    show ?thesis
      using with_block_returned [of p cfg w f block x, OF \<open>session_handle p cfg w = Inr f\<close> Inr]
        closed by simp
  qed
qed

subsection \<open>Recovery\<close>

text \<open>
  C1. The recovery run at the start of a session does what the decision table says, for
  every state of the three files: with a temporary and a primary it deletes the
  temporary; with a temporary, no primary and a backup it renames the temporary to the
  primary; with a temporary alone it deletes it; without a temporary it does nothing at
  all, so a backup without a primary stays a backup. The warnings logged are those of
  the branch taken.
\<close>

theorem recover_decision_table:
  "recover s w =
     (let P = primary_path s; B = backup_path s; T = temporary_path s in
      if exists_path T w \<and> exists_path P w then
        w\<lparr>files := (files w)(T := None),
          warnings := warnings w @ [TemporaryExists T, RemovingTemporary]\<rparr>
      else if exists_path T w \<and> exists_path B w then
        w\<lparr>files := (files w)(T := None, P := files w T),
          warnings := warnings w @ [TemporaryExists T, RollingForward]\<rparr>
      else if exists_path T w then
        w\<lparr>files := (files w)(T := None),
          warnings := warnings w @ [TemporaryExists T, FirstPrimaryNotCreated]\<rparr>
      else w)"
  by (simp add: recover_world Let_def exists_path_def)

text \<open>
  The table at three states: a backup alone is left alone, a temporary beside a backup
  becomes the primary, a temporary beside a primary is dropped.
\<close>

theorem recover_decision_table_witness:
  "recover (two_phase_open cache (Mode ModeR False)) (world_of [(backup_of cache, ''old'')])
     = world_of [(backup_of cache, ''old'')]
   \<and> files (recover (two_phase_open cache (Mode ModeW False))
        (world_of [(temporary_of cache, ''new''), (backup_of cache, ''old'')])) cache
       = Some ''new''
   \<and> files (recover (two_phase_open cache (Mode ModeW False))
        (world_of [(temporary_of cache, ''new''), (cache, ''old'')])) cache
       = Some ''old''"
  using recover_decision_table [of "two_phase_open cache (Mode ModeR False)"
          "world_of [(backup_of cache, ''old'')]"]
        recover_decision_table [of "two_phase_open cache (Mode ModeW False)"
          "world_of [(temporary_of cache, ''new''), (backup_of cache, ''old'')]"]
        recover_decision_table [of "two_phase_open cache (Mode ModeW False)"
          "world_of [(temporary_of cache, ''new''), (cache, ''old'')]"]
  by (simp add: Let_def exists_path_def path_defs example_defs)

subsection \<open>Commit\<close>

text \<open>
  C2. A writable session whose block ends without an exception commits: when the primary
  exists at that moment, the backup is replaced by the primary (the old backup deleted
  first, the primary renamed onto it); then, in both cases, the temporary is renamed to
  the primary. So the primary ends with what the temporary held, the temporary is gone,
  and when there was no primary the backup is exactly as it was.
\<close>

theorem commit_effect:
  assumes "session_handle p cfg w = Inr f" and "fwritable f"
    and "fst (block f (session_start p cfg w)) = Inr v"
  shows "let B = backup_of p; T = temporary_of p;
             w2 = snd (block f (session_start p cfg w));
             r = with_two_phase_open p cfg block w
         in fst r = Inr (Some v)
          \<and> snd r = w2\<lparr>open_files := remove1 T (open_files w2),
                       files := (if exists_path p w2
                                 then (files w2)(B := files w2 p, p := files w2 T, T := None)
                                 else (files w2)(p := files w2 T, T := None))\<rparr>
          \<and> (if exists_path p w2 then files (snd r) B = files w2 p
              else files (snd r) B = files w2 B)
          \<and> files (snd r) p = files w2 T"
proof -
  have T: "fpath f = temporary_of p"
    using enter_writable(1) assms(1,2) unfolding session_handle_def by fastforce
  have r: "with_two_phase_open p cfg block w =
           (Inr (Some v),
            snd (close (two_phase_open p cfg\<lparr>tp_writable := fwritable f, tp_file := Some f\<rparr>)
                   True (snd (block f (session_start p cfg w)))))"
    using assms(1,3) by (rule with_block_returned)
  show ?thesis
    unfolding r using assms(2) T
    by (simp add: close_world [where f = f] Let_def exists_path_def)
qed

text \<open>
  A first write beside a backup left from earlier: the write becomes the primary and the
  backup keeps its content.
\<close>

theorem commit_effect_witness:
  "session_handle cache (Mode ModeW False) (world_of [(backup_of cache, ''old'')])
     = Inr \<lparr>fpath = temporary_of cache, fwritable = True\<rparr>
   \<and> files (snd (with_two_phase_open cache (Mode ModeW False) (write_block ''new'')
        (world_of [(backup_of cache, ''old'')]))) cache = Some ''new''
   \<and> files (snd (with_two_phase_open cache (Mode ModeW False) (write_block ''new'')
        (world_of [(backup_of cache, ''old'')]))) (backup_of cache) = Some ''old''"
  using commit_effect [of cache "Mode ModeW False" "world_of [(backup_of cache, ''old'')]"
          "\<lparr>fpath = temporary_of cache, fwritable = True\<rparr>" "write_block ''new''" "()"]
  by (simp add: Let_def session_handle_def session_start_def enter_def probe_def recover_def
        select_path_def open_backing_def close_def exists_path_def unlink_def opened_def
        create_empty_def file_close_def write_block_def file_write_def path_defs example_defs)


subsection \<open>Exceptions of the block\<close>

text \<open>
  C10. \<^verbatim>\<open>__exit__\<close> returns \<open>False\<close> whatever it is given. So for every session that
  handed out a handle and every block that raises, the exception of the block reaches
  the caller, after the close path has run: the handle is closed, and for a writable
  session the temporary is deleted, for a read-only one no file changes.
\<close>

theorem exit_never_suppresses:
  "fst (exit s exception w) = False
   \<and> (session_handle p cfg w0 = Inr f \<and> fst (block f (session_start p cfg w0)) = Inl e \<longrightarrow>
      (let w2 = snd (block f (session_start p cfg w0));
           r = with_two_phase_open p cfg block w0
       in fst r = Inl e
        \<and> snd r = w2\<lparr>open_files := remove1 (fpath f) (open_files w2),
                     files := (if fwritable f then (files w2)(temporary_of p := None)
                               else files w2)\<rparr>))"
proof -
  have a: "fst (exit s exception w) = False"
    by (simp add: exit_def case_prod_beta)
  have b: "let w2 = snd (block f (session_start p cfg w0));
               r = with_two_phase_open p cfg block w0
           in fst r = Inl e
            \<and> snd r = w2\<lparr>open_files := remove1 (fpath f) (open_files w2),
                         files := (if fwritable f then (files w2)(temporary_of p := None)
                                   else files w2)\<rparr>"
    if h: "session_handle p cfg w0 = Inr f" "fst (block f (session_start p cfg w0)) = Inl e"
  proof -
    have r: "with_two_phase_open p cfg block w0 =
           (Inl e, snd (close (two_phase_open p cfg\<lparr>tp_writable := fwritable f, tp_file := Some f\<rparr>)
                          False (snd (block f (session_start p cfg w0)))))"
      using h by (rule with_block_raised)
    show ?thesis
      unfolding r by (simp add: close_world [where f = f] Let_def)
  qed
  show ?thesis using a b by blast
qed

text \<open>
  A block that fails in a read-only session (the write is refused) and one that fails in
  a writable session: both exceptions reach the caller.
\<close>

theorem exit_never_suppresses_witness:
  "session_handle cache (Mode ModeR False) (world_of [(cache, ''old'')])
     = Inr \<lparr>fpath = cache, fwritable = False\<rparr>
   \<and> fst (with_two_phase_open cache (Mode ModeR False) (failing_block ''x'' (CallerError ''boom''))
        (world_of [(cache, ''old'')])) = Inl UnsupportedOperation
   \<and> session_handle cache (Mode ModeW False) (world_of [(cache, ''old'')])
     = Inr \<lparr>fpath = temporary_of cache, fwritable = True\<rparr>
   \<and> fst (with_two_phase_open cache (Mode ModeW False) (failing_block ''x'' (CallerError ''boom''))
        (world_of [(cache, ''old'')])) = Inl (CallerError ''boom'')"
  using exit_never_suppresses [of "two_phase_open cache (Mode ModeR False)" None
          "world_of [(cache, ''old'')]" cache "Mode ModeR False" "world_of [(cache, ''old'')]"
          "\<lparr>fpath = cache, fwritable = False\<rparr>" "failing_block ''x'' (CallerError ''boom'')"
          UnsupportedOperation]
        exit_never_suppresses [of "two_phase_open cache (Mode ModeW False)" None
          "world_of [(cache, ''old'')]" cache "Mode ModeW False" "world_of [(cache, ''old'')]"
          "\<lparr>fpath = temporary_of cache, fwritable = True\<rparr>"
          "failing_block ''x'' (CallerError ''boom'')" "CallerError ''boom''"]
  by (simp add: Let_def session_handle_def session_start_def enter_def probe_def recover_def
        select_path_def open_backing_def close_def exists_path_def unlink_def opened_def
        create_empty_def file_close_def failing_block_def file_write_def path_defs example_defs)

subsection \<open>Rollback\<close>

text \<open>
  C3, as stated, at a concrete input: a temporary and a backup are left from a crash
  between the two renames of a commit, and there is no primary. The next writable
  session fails in its block. Its recovery has rolled the old temporary forward, so the
  primary, absent before the session began, exists after the rollback.
\<close>

theorem rollback_counterexample:
  "session_handle cache (Mode ModeW False)
       (world_of [(temporary_of cache, ''new''), (backup_of cache, ''old'')])
     = Inr \<lparr>fpath = temporary_of cache, fwritable = True\<rparr>
   \<and> fst (with_two_phase_open cache (Mode ModeW False) (failing_block [] (CallerError ''boom''))
        (world_of [(temporary_of cache, ''new''), (backup_of cache, ''old'')]))
     = Inl (CallerError ''boom'')
   \<and> files (world_of [(temporary_of cache, ''new''), (backup_of cache, ''old'')]) cache = None
   \<and> files (snd (with_two_phase_open cache (Mode ModeW False)
        (failing_block [] (CallerError ''boom''))
        (world_of [(temporary_of cache, ''new''), (backup_of cache, ''old'')]))) cache
     = Some ''new''"
  by (simp add: eval_defs)

text \<open>
  C3, amended. For every writable session whose block raises, having touched the file
  system through its handle only: the exception reaches the caller; the temporary does
  not exist afterwards; the backup is exactly as it was before the session began; the
  primary is as it was before the session began, unless the recovery of this session
  rolled a leftover temporary forward (temporary present, primary absent, backup
  present), and then it holds what that temporary held; and a read session that follows
  returns the content of the primary, when there is one.
\<close>

theorem rollback_effect:
  assumes "session_handle p cfg w = Inr f" and "fwritable f"
    and "fst (block f (session_start p cfg w)) = Inl e"
    and "confined block"
  shows "let B = backup_of p; T = temporary_of p;
             r = with_two_phase_open p cfg block w
         in fst r = Inl e
          \<and> files (snd r) T = None
          \<and> files (snd r) B = files w B
          \<and> files (snd r) p =
              (if exists_path T w \<and> \<not> exists_path p w \<and> exists_path B w
               then files w T else files w p)
          \<and> (\<forall>c. files (snd r) p = Some c \<longrightarrow>
                fst (with_two_phase_open p (Mode ModeR False) read_block (snd r))
                  = Inr (Some c))"
proof -
  let ?w1 = "session_start p cfg w"
  let ?w2 = "snd (block f ?w1)"
  have T: "fpath f = temporary_of p"
    using session_start_writable(1) [OF assms(1,2)] .
  have r: "with_two_phase_open p cfg block w =
           (Inl e, snd (close (two_phase_open p cfg\<lparr>tp_writable := fwritable f, tp_file := Some f\<rparr>)
                          False ?w2))"
    using assms(1,3) by (rule with_block_raised)
  have fin: "files (snd (with_two_phase_open p cfg block w)) = (files ?w2)(temporary_of p := None)"
    unfolding r using assms(2) by (simp add: close_world [where f = f] Let_def)
  have keep: "files ?w2 q = files ?w1 q" if "q \<noteq> temporary_of p" for q
    using assms(4) that T unfolding confined_def by metis
  have B: "files (snd (with_two_phase_open p cfg block w)) (backup_of p) = files w (backup_of p)"
    using keep [of "backup_of p"] session_start_writable(2) [OF assms(1,2)]
    by (simp add: fin)
  have P: "files (snd (with_two_phase_open p cfg block w)) p =
             (if exists_path (temporary_of p) w \<and> \<not> exists_path p w \<and> exists_path (backup_of p) w
              then files w (temporary_of p) else files w p)"
    using keep [of p] session_start_writable(3) [OF assms(1,2)]
    by (simp add: fin exists_path_def)
  have E: "fst (with_two_phase_open p cfg block w) = Inl e"
    by (simp add: r)
  have N: "files (snd (with_two_phase_open p cfg block w)) (temporary_of p) = None"
    by (simp add: fin)
  show ?thesis
    using E N B P by (simp add: Let_def read_primary)
qed

text \<open>
  A write over an existing primary that fails halfway: the primary still reads as before
  and the temporary is gone.
\<close>

theorem rollback_effect_witness:
  "session_handle cache (Mode ModeW False) (world_of [(cache, ''old'')])
     = Inr \<lparr>fpath = temporary_of cache, fwritable = True\<rparr>
   \<and> fst (with_two_phase_open cache (Mode ModeW False) (failing_block ''half'' (CallerError ''boom''))
        (world_of [(cache, ''old'')])) = Inl (CallerError ''boom'')
   \<and> files (snd (with_two_phase_open cache (Mode ModeW False)
        (failing_block ''half'' (CallerError ''boom'')) (world_of [(cache, ''old'')]))) cache
     = Some ''old''
   \<and> files (snd (with_two_phase_open cache (Mode ModeW False)
        (failing_block ''half'' (CallerError ''boom'')) (world_of [(cache, ''old'')])))
        (temporary_of cache) = None"
  using rollback_effect [of cache "Mode ModeW False" "world_of [(cache, ''old'')]"
          "\<lparr>fpath = temporary_of cache, fwritable = True\<rparr>"
          "failing_block ''half'' (CallerError ''boom'')" "CallerError ''boom''",
          OF _ _ _ confined_failing_block]
  by (simp add: eval_defs)

subsection \<open>The temporary file after a session\<close>

text \<open>
  C4, as stated, at a concrete input: a temporary is left from a crash, and the next
  session is opened with arguments that \<^verbatim>\<open>open\<close> rejects. The probe raises
  \<^verbatim>\<open>ValueError\<close>, which is not caught; recovery is never reached, and the temporary is
  still there when the session has failed.
\<close>

theorem temporary_survives_counterexample:
  "fst (with_two_phase_open cache BadArgs read_block (world_of [(temporary_of cache, ''junk'')]))
     = Inl ValueError
   \<and> files (snd (with_two_phase_open cache BadArgs read_block
        (world_of [(temporary_of cache, ''junk'')]))) (temporary_of cache) = Some ''junk''"
  by (simp add: eval_defs)

text \<open>
  C4, amended. After recovery the temporary does not exist, whatever the three files
  were. After every session in which the probe came to a verdict, the temporary does not
  exist either: after a commit, after a rollback, after the close of a read-only
  session, and when opening or checking the backing file failed. (The block touches the
  file system through its handle only.) Every session whose probe raises, which is never
  with \<^verbatim>\<open>FileNotFoundError\<close>, ends with that exception before recovery, and the
  temporary is then exactly as it was before the session: one left by a crash is still
  there.
\<close>

theorem temporary_absent:
  "files (recover s w0) (temporary_path s) = None
   \<and> (fst (probe (two_phase_open p cfg) w) = Inr v \<and> confined block \<longrightarrow>
        files (snd (with_two_phase_open p cfg block w)) (temporary_of p) = None)
   \<and> (fst (probe (two_phase_open p cfg) w) = Inl e \<longrightarrow>
        e \<noteq> FileNotFoundError
      \<and> fst (with_two_phase_open p cfg block w) = Inl e
      \<and> files (snd (with_two_phase_open p cfg block w)) (temporary_of p)
          = files w (temporary_of p))"
proof -
  have a: "files (recover s w0) (temporary_path s) = None"
    by (rule recover_temporary)
  have b: "fst (probe (two_phase_open p cfg) w) = Inr v \<and> confined block \<longrightarrow>
        files (snd (with_two_phase_open p cfg block w)) (temporary_of p) = None"
    using verdict_session_temporary by blast
  have c: "fst (probe (two_phase_open p cfg) w) = Inl e \<longrightarrow>
        e \<noteq> FileNotFoundError
      \<and> fst (with_two_phase_open p cfg block w) = Inl e
      \<and> files (snd (with_two_phase_open p cfg block w)) (temporary_of p)
          = files w (temporary_of p)"
    using probe_raised(1) [of p cfg w e] probe_raised(2,3) [of p cfg w e block] by blast
  show ?thesis
    using a b c by (intro conjI)
qed

text \<open>
  A read with only a temporary on disk: the open of the primary fails, and the temporary
  has been removed by then. An exclusive-create session that finds a stale probe file
  beside a temporary: the probe raises \<^verbatim>\<open>FileExistsError\<close> and the temporary stays.
\<close>

theorem temporary_absent_witness:
  "fst (probe (two_phase_open cache (Mode ModeR False)) (world_of [(temporary_of cache, ''junk'')]))
     = Inr False
   \<and> fst (with_two_phase_open cache (Mode ModeR False) read_block
        (world_of [(temporary_of cache, ''junk'')])) = Inl FileNotFoundError
   \<and> files (snd (with_two_phase_open cache (Mode ModeR False) read_block
        (world_of [(temporary_of cache, ''junk'')]))) (temporary_of cache) = None
   \<and> files (recover (two_phase_open cache (Mode ModeR False))
        (world_of [(temporary_of cache, ''junk'')])) (temporary_of cache) = None
   \<and> fst (probe (two_phase_open cache (Mode ModeX False))
        (world_of [(temporary_of cache, ''junk''), (probe_of cache, ''stale'')]))
     = Inl FileExistsError
   \<and> fst (with_two_phase_open cache (Mode ModeX False) (write_block ''new'')
        (world_of [(temporary_of cache, ''junk''), (probe_of cache, ''stale'')]))
     = Inl FileExistsError
   \<and> files (snd (with_two_phase_open cache (Mode ModeX False) (write_block ''new'')
        (world_of [(temporary_of cache, ''junk''), (probe_of cache, ''stale'')])))
        (temporary_of cache) = Some ''junk''"
proof -
  have v: "fst (probe (two_phase_open cache (Mode ModeR False))
             (world_of [(temporary_of cache, ''junk'')])) = Inr False"
    by (simp add: probe_verdict)
  have x: "fst (probe (two_phase_open cache (Mode ModeX False))
             (world_of [(temporary_of cache, ''junk''), (probe_of cache, ''stale'')]))
           = Inl FileExistsError"
    by (simp add: eval_defs)
  have r: "fst (with_two_phase_open cache (Mode ModeR False) read_block
             (world_of [(temporary_of cache, ''junk'')])) = Inl FileNotFoundError"
    by (simp add: eval_defs)
  have j: "files (world_of [(temporary_of cache, ''junk''), (probe_of cache, ''stale'')])
             (temporary_of cache) = Some ''junk''"
    by (simp add: world_of_def)
  show ?thesis
    using v x r j
      temporary_absent [where s = "two_phase_open cache (Mode ModeR False)"
        and ?w0.0 = "world_of [(temporary_of cache, ''junk'')]" and p = cache
        and cfg = "Mode ModeR False" and w = "world_of [(temporary_of cache, ''junk'')]"
        and v = False and block = read_block]
      temporary_absent [where p = cache and cfg = "Mode ModeX False"
        and w = "world_of [(temporary_of cache, ''junk''), (probe_of cache, ''stale'')]"
        and block = "write_block ''new''" and e = FileExistsError]
      confined_read_block
    by (simp add: path_defs two_phase_open_def)
qed

subsection \<open>The probe against the handle\<close>

text \<open>
  C5 at the configuration \<^verbatim>\<open>'r+'\<close> with a primary on disk. The probe file does not
  exist, so the open of the probe raises \<^verbatim>\<open>FileNotFoundError\<close> and the probe says "not
  writable"; the primary is then opened with the same configuration and its handle is
  writable. The comparison fails and the session ends with \<^verbatim>\<open>WritableMismatch\<close>. (By
  \<open>mismatch_needs_read_update\<close> this is the only configuration where that happens.)
\<close>

theorem read_update_mismatch:
  "fst (probe (two_phase_open cache (Mode ModeR True)) (world_of [(cache, ''data'')])) = Inr False
   \<and> path_open cache (Mode ModeR True) (world_of [(cache, ''data'')])
     = opened cache True (world_of [(cache, ''data'')])
   \<and> session_handle cache (Mode ModeR True) (world_of [(cache, ''data'')]) = Inl WritableMismatch
   \<and> fst (with_two_phase_open cache (Mode ModeR True) read_block (world_of [(cache, ''data'')]))
     = Inl WritableMismatch"
  by (simp add: eval_defs)

text \<open>
  C7. Whenever the probe came to a verdict, the backing file was opened, and the handle's
  \<^verbatim>\<open>writable()\<close> differs from the verdict, \<^verbatim>\<open>__enter__\<close> raises \<^verbatim>\<open>WritableMismatch\<close>: the
  session has no block, the error is what the caller gets. At that moment the object holds
  no file and every file object opened by the session has been closed.
\<close>

theorem mismatch_closes_handle:
  assumes "fst (probe (two_phase_open p cfg) w) = Inr v"
    and "\<exists>w4. path_open
                 (fst (select_path (two_phase_open p cfg\<lparr>tp_writable := v\<rparr>)
                         (recover (two_phase_open p cfg) (snd (probe (two_phase_open p cfg) w)))))
                 cfg
                 (snd (select_path (two_phase_open p cfg\<lparr>tp_writable := v\<rparr>)
                         (recover (two_phase_open p cfg) (snd (probe (two_phase_open p cfg) w)))))
               = Inr (f, w4)"
    and "fwritable f \<noteq> v"
  shows "session_handle p cfg w = Inl WritableMismatch
       \<and> tp_file (fst (snd (enter (two_phase_open p cfg) w))) = None
       \<and> open_files (session_start p cfg w) = open_files w
       \<and> with_two_phase_open p cfg block w = (Inl WritableMismatch, session_start p cfg w)"
proof -
  let ?s = "two_phase_open p cfg"
  let ?s1 = "?s\<lparr>tp_writable := v\<rparr>"
  let ?w2 = "recover ?s (snd (probe ?s w))"
  let ?q = "fst (select_path ?s1 ?w2)"
  let ?w3 = "snd (select_path ?s1 ?w2)"
  obtain w4 where po: "path_open ?q (remaining_args ?s1) ?w3 = Inr (f, w4)"
    using assms(2) by auto
  have en: "enter ?s w = open_backing ?s1 ?q ?w3"
    using enter_probe_verdict [OF assms(1)] by (simp add: Let_def)
  have mis: "fwritable f \<noteq> tp_writable ?s1"
    using assms(3) by simp
  have ob: "enter ?s w =
              (Inl WritableMismatch, ?s1\<lparr>tp_file := None\<rparr>,
               snd (close (?s1\<lparr>tp_file := Some f\<rparr>) False w4))"
    using open_backing_mismatch [OF po mis] by (simp add: en)
  have h: "session_handle p cfg w = Inl WritableMismatch"
    by (simp add: session_handle_def ob)
  have "open_files w4 = ?q # open_files w"
    using path_open_Inr(2) [OF po]
    by (simp add: select_path_open_files recover_open_files probe_world)
  then have o: "open_files (session_start p cfg w) = open_files w"
    using path_open_Inr(1) [OF po]
    by (simp add: session_start_def ob close_world [where f = f])
  show ?thesis
    using h o with_enter_failed [OF h, of block] by (simp add: ob)
qed

text \<open>
  Read-update with a backup and no primary: the backup is opened, found writable against
  a probe that said read-only, and closed again before the error.
\<close>

theorem mismatch_closes_handle_witness:
  "fst (probe (two_phase_open cache (Mode ModeR True)) (world_of [(backup_of cache, ''old'')]))
     = Inr False
   \<and> session_handle cache (Mode ModeR True) (world_of [(backup_of cache, ''old'')])
     = Inl WritableMismatch
   \<and> open_files (session_start cache (Mode ModeR True) (world_of [(backup_of cache, ''old'')])) = []
   \<and> fst (with_two_phase_open cache (Mode ModeR True) (write_block ''x'')
        (world_of [(backup_of cache, ''old'')])) = Inl WritableMismatch"
  using mismatch_closes_handle [of cache "Mode ModeR True" "world_of [(backup_of cache, ''old'')]"
          False "\<lparr>fpath = backup_of cache, fwritable = True\<rparr>" "write_block ''x''"]
  by (simp add: eval_defs)

subsection \<open>The probe\<close>

text \<open>
  C9. When the open of the probe file fails with \<^verbatim>\<open>FileNotFoundError\<close>, the probe's
  verdict is "not writable", nothing has changed, and \<^verbatim>\<open>__enter__\<close> goes on with
  recovery, the choice of the path and the open of the backing file. And whatever the
  probe's outcome (a verdict or an exception), the probe file does not exist when the
  probe is over, nor when \<^verbatim>\<open>__enter__\<close> is.
\<close>

theorem probe_cleanup:
  "files (snd (probe s w)) (probe_path s) = None
   \<and> files (snd (snd (enter s w))) (probe_path s) = None
   \<and> (path_open (probe_path s) (remaining_args s) w = Inl FileNotFoundError \<longrightarrow>
        probe s w = (Inr False, w)
      \<and> enter s w =
          (let s1 = s\<lparr>tp_writable := False\<rparr>; w2 = recover s w
           in open_backing s1 (fst (select_path s1 w2)) (snd (select_path s1 w2))))"
proof -
  have a: "files (snd (probe s w)) (probe_path s) = None"
    by (simp add: probe_world)
  have b: "files (snd (snd (enter s w))) (probe_path s) = None"
  proof (cases "fst (probe s w)")
    case (Inl e)
    then show ?thesis by (simp add: enter_probe_failed a)
  next
    case (Inr v)
    let ?s1 = "s\<lparr>tp_writable := v\<rparr>"
    let ?w2 = "recover s (snd (probe s w))"
    let ?q = "fst (select_path ?s1 ?w2)"
    let ?w3 = "snd (select_path ?s1 ?w2)"
    have en: "enter s w = open_backing ?s1 ?q ?w3"
      using enter_probe_verdict [OF Inr] by (simp add: Let_def)
    have w3: "files ?w3 (probe_path s) = None"
      by (simp add: select_path_files recover_probe a)
    have q: "probe_path s \<noteq> ?q"
      using select_path_not_probe [of ?s1 ?w2] by simp
    show ?thesis
    proof (cases "path_open ?q (remaining_args ?s1) ?w3")
      case (Inl e)
      then show ?thesis using w3 by (simp add: en open_backing_Inl)
    next
      case (Inr fw)
      obtain f w4 where po: "path_open ?q (remaining_args ?s1) ?w3 = Inr (f, w4)"
        using Inr by (cases fw) simp
      have w4: "files w4 (probe_path s) = None"
        using path_open_Inr(5) [OF po q] w3 by simp
      show ?thesis
      proof (cases "fwritable f = tp_writable ?s1")
        case True
        then show ?thesis using po w4
          by (simp add: en open_backing_def Let_def)
      next
        case False
        show ?thesis
          using open_backing_mismatch [OF po False] w4
          by (simp add: en close_world [where f = f] Let_def path_defs)
      qed
    qed
  qed
  have c: "probe s w = (Inr False, w)
      \<and> enter s w =
          (let s1 = s\<lparr>tp_writable := False\<rparr>; w2 = recover s w
           in open_backing s1 (fst (select_path s1 w2)) (snd (select_path s1 w2)))"
    if nf: "path_open (probe_path s) (remaining_args s) w = Inl FileNotFoundError"
  proof -
    have absent: "files w (probe_path s) = None"
      using path_open_not_found(1) [OF nf] .
    obtain u where u: "remaining_args s = Mode ModeR u"
      using path_open_not_found(2) [OF nf] by auto
    have v: "fst (probe s w) = Inr False"
      using u absent by (simp add: probe_verdict)
    have w1: "snd (probe s w) = w"
      using absent by (simp add: probe_world)
    have "probe s w = (Inr False, w)"
      using v w1 by (cases "probe s w") simp
    then show ?thesis
      using enter_probe_verdict [OF v] by (simp add: w1)
  qed
  show ?thesis using a b c by blast
qed

text \<open>
  A plain read beside an existing primary (the probe open fails, the session goes on and
  returns a handle on the primary), and an exclusive-create probe that finds a stale
  probe file (the open fails with \<^verbatim>\<open>FileExistsError\<close>, and the file is removed all the
  same).
\<close>

theorem probe_cleanup_witness:
  "path_open (probe_path (two_phase_open cache (Mode ModeR False)))
       (remaining_args (two_phase_open cache (Mode ModeR False))) (world_of [(cache, ''old'')])
     = Inl FileNotFoundError
   \<and> fst (probe (two_phase_open cache (Mode ModeR False)) (world_of [(cache, ''old'')])) = Inr False
   \<and> session_handle cache (Mode ModeR False) (world_of [(cache, ''old'')])
     = Inr \<lparr>fpath = cache, fwritable = False\<rparr>
   \<and> files (snd (probe (two_phase_open cache (Mode ModeX False))
        (world_of [(probe_of cache, ''stale'')]))) (probe_of cache) = None"
  using probe_cleanup [of "two_phase_open cache (Mode ModeR False)" "world_of [(cache, ''old'')]"]
        probe_cleanup [of "two_phase_open cache (Mode ModeX False)"
          "world_of [(probe_of cache, ''stale'')]"]
  by (simp add: eval_defs)

subsection \<open>Reading\<close>

text \<open>
  C6, as stated, at a concrete input: a read when only a temporary is on disk. The probe
  says "not writable", neither primary nor backup exists, and the caller gets
  \<^verbatim>\<open>FileNotFoundError\<close>; but the file system is not as it was: recovery has deleted the
  temporary.
\<close>

theorem read_only_changes_files_counterexample:
  "fst (probe (two_phase_open cache (Mode ModeR False)) (world_of [(temporary_of cache, ''junk'')]))
     = Inr False
   \<and> files (world_of [(temporary_of cache, ''junk'')]) cache = None
   \<and> files (world_of [(temporary_of cache, ''junk'')]) (backup_of cache) = None
   \<and> fst (with_two_phase_open cache (Mode ModeR False) read_block
        (world_of [(temporary_of cache, ''junk'')])) = Inl FileNotFoundError
   \<and> files (world_of [(temporary_of cache, ''junk'')]) (temporary_of cache) = Some ''junk''
   \<and> files (snd (with_two_phase_open cache (Mode ModeR False) read_block
        (world_of [(temporary_of cache, ''junk'')]))) (temporary_of cache) = None"
  by (simp add: eval_defs)

text \<open>
  C6, amended. In a session whose probe said "not writable", with the files as recovery
  leaves them: the path chosen is the backup exactly when the backup exists and the
  primary does not, and then the warning about reading from the backup is logged;
  otherwise it is the primary, and nothing is logged. That path is the one opened, and
  the handle of a session that starts is on it. When neither primary nor backup exists
  (after recovery, or before the session, which is the same), the open fails with
  \<^verbatim>\<open>FileNotFoundError\<close>, which is what the caller gets, and the world is left as recovery
  left it: the files are those from before the session without the probe file and
  without the temporary, and no file object is left open. When none of the four files
  exists to begin with, the world after the failed session is the world before it.
\<close>

theorem read_only_backing:
  assumes "fst (probe (two_phase_open p cfg) w) = Inr False"
  shows "let s1 = two_phase_open p cfg\<lparr>tp_writable := False\<rparr>;
             w2 = recover (two_phase_open p cfg) (snd (probe (two_phase_open p cfg) w));
             B = backup_of p; T = temporary_of p; R = probe_of p;
             from_backup = (exists_path B w2 \<and> \<not> exists_path p w2)
         in select_path s1 w2 =
              (if from_backup then (B, warn (ReadingFromBackup B) w2) else (p, w2))
          \<and> enter (two_phase_open p cfg) w =
              open_backing s1 (if from_backup then B else p)
                (if from_backup then warn (ReadingFromBackup B) w2 else w2)
          \<and> (\<forall>f. session_handle p cfg w = Inr f \<longrightarrow>
                fpath f = (if from_backup then B else p)
              \<and> files (session_start p cfg w) = files w2)
          \<and> (\<not> exists_path p w2 \<and> \<not> exists_path B w2 \<longrightarrow>
                with_two_phase_open p cfg block w = (Inl FileNotFoundError, w2))
          \<and> (\<not> exists_path p w \<and> \<not> exists_path B w \<and> \<not> exists_path T w
                \<and> \<not> exists_path R w \<longrightarrow>
                with_two_phase_open p cfg block w = (Inl FileNotFoundError, w))
          \<and> (\<not> exists_path p w \<and> \<not> exists_path B w \<longrightarrow>
                fst (with_two_phase_open p cfg block w) = Inl FileNotFoundError
              \<and> files (snd (with_two_phase_open p cfg block w))
                  = (files w)(R := None, T := None)
              \<and> open_files (snd (with_two_phase_open p cfg block w)) = open_files w)"
proof -
  let ?s = "two_phase_open p cfg"
  let ?s1 = "?s\<lparr>tp_writable := False\<rparr>"
  let ?w2 = "recover ?s (snd (probe ?s w))"
  let ?B = "backup_of p"
  let ?fb = "exists_path ?B ?w2 \<and> \<not> exists_path p ?w2"
  have c1: "select_path ?s1 ?w2 =
              (if ?fb then (?B, warn (ReadingFromBackup ?B) ?w2) else (p, ?w2))"
    by (simp add: select_path_readonly exists_path_def)
  have c2: "enter ?s w =
              open_backing ?s1 (if ?fb then ?B else p)
                (if ?fb then warn (ReadingFromBackup ?B) ?w2 else ?w2)"
  proof (cases ?fb)
    case True
    have sel: "select_path ?s1 ?w2 = (?B, warn (ReadingFromBackup ?B) ?w2)"
      using c1 unfolding if_P [OF True] .
    have "enter ?s w = open_backing ?s1 ?B (warn (ReadingFromBackup ?B) ?w2)"
      using enter_probe_verdict [OF assms] by (simp add: Let_def sel)
    then show ?thesis
      unfolding if_P [OF True] .
  next
    case False
    have sel: "select_path ?s1 ?w2 = (p, ?w2)"
      using c1 unfolding if_not_P [OF False] .
    have "enter ?s w = open_backing ?s1 p ?w2"
      using enter_probe_verdict [OF assms] by (simp add: Let_def sel)
    then show ?thesis
      unfolding if_not_P [OF False] .
  qed
  have c3: "\<forall>f. session_handle p cfg w = Inr f \<longrightarrow>
              fpath f = (if ?fb then ?B else p) \<and> files (session_start p cfg w) = files ?w2"
  proof (intro allI impI)
    fix f
    assume h: "session_handle p cfg w = Inr f"
    have h': "fst (enter ?s w) = Inr f" using h by (simp add: session_handle_def)
    have ro: "\<not> fwritable f"
      using enter_Inr(1) [OF h'] assms by simp
    have a: "fpath f = (if ?fb then ?B else p)"
      using enter_readonly(1) [OF h' ro] by (simp add: exists_path_def)
    have b: "files (session_start p cfg w) = files ?w2"
      using enter_readonly(2) [OF h' ro] by (simp add: session_start_def)
    show "fpath f = (if ?fb then ?B else p) \<and> files (session_start p cfg w) = files ?w2"
      using a b by (rule conjI)
  qed
  have none: "with_two_phase_open p cfg block w = (Inl FileNotFoundError, ?w2)"
    if ne: "\<not> exists_path p ?w2 \<and> \<not> exists_path ?B ?w2"
  proof -
    have nfb: "\<not> ?fb" using ne by blast
    have en: "enter ?s w = open_backing ?s1 p ?w2"
      using c2 unfolding if_not_P [OF nfb] .
    have "cfg \<noteq> BadArgs"
      using assms by (auto simp: probe_verdict)
    then obtain b u where cfg: "cfg = Mode b u" by (cases cfg) auto
    have "b = ModeR"
      using assms cfg by (cases b) (auto simp: probe_verdict split: if_splits)
    then have po: "path_open p (remaining_args ?s1) ?w2 = Inl FileNotFoundError"
      using ne cfg by simp
    have e: "enter ?s w = (Inl FileNotFoundError, ?s1, ?w2)"
      using open_backing_Inl [OF po] en by simp
    have h: "session_handle p cfg w = Inl FileNotFoundError"
      by (simp add: session_handle_def e)
    have st: "session_start p cfg w = ?w2"
      by (simp add: session_start_def e)
    show ?thesis
      using with_enter_failed [OF h, of block] st by simp
  qed
  have c4: "\<not> exists_path p ?w2 \<and> \<not> exists_path ?B ?w2 \<longrightarrow>
              with_two_phase_open p cfg block w = (Inl FileNotFoundError, ?w2)"
    using none by (rule impI)
  have c5: "\<not> exists_path p w \<and> \<not> exists_path ?B w \<and> \<not> exists_path (temporary_of p) w
              \<and> \<not> exists_path (probe_of p) w \<longrightarrow>
              with_two_phase_open p cfg block w = (Inl FileNotFoundError, w)"
  proof
    assume ne: "\<not> exists_path p w \<and> \<not> exists_path ?B w \<and> \<not> exists_path (temporary_of p) w
              \<and> \<not> exists_path (probe_of p) w"
    have "snd (probe ?s w) = w"
      using ne by (simp add: probe_world exists_path_def)
    then have w2: "?w2 = w"
      using ne by (simp add: recover_def)
    have "\<not> exists_path p ?w2 \<and> \<not> exists_path ?B ?w2"
      using ne unfolding w2 by blast
    then show "with_two_phase_open p cfg block w = (Inl FileNotFoundError, w)"
      using none w2 by simp
  qed
  have c6: "\<not> exists_path p w \<and> \<not> exists_path ?B w \<longrightarrow>
                fst (with_two_phase_open p cfg block w) = Inl FileNotFoundError
              \<and> files (snd (with_two_phase_open p cfg block w))
                  = (files w)(probe_of p := None, temporary_of p := None)
              \<and> open_files (snd (with_two_phase_open p cfg block w)) = open_files w"
  proof
    assume ne: "\<not> exists_path p w \<and> \<not> exists_path ?B w"
    let ?w1 = "snd (probe ?s w)"
    have w1: "?w1 = w\<lparr>files := (files w)(probe_of p := None)\<rparr>"
      by (simp add: probe_world)
    have P1: "files ?w1 p = None" and B1: "files ?w1 ?B = None"
      using ne by (simp_all add: w1 exists_path_def)
    have fw2: "files ?w2 = (files w)(probe_of p := None, temporary_of p := None)"
      using P1 B1 by (auto simp: recover_world Let_def w1 fun_eq_iff)
    have ow2: "open_files ?w2 = open_files w"
      by (simp add: recover_open_files probe_world)
    have "\<not> exists_path p ?w2 \<and> \<not> exists_path ?B ?w2"
      using ne by (simp add: fw2 exists_path_def)
    then have r: "with_two_phase_open p cfg block w = (Inl FileNotFoundError, ?w2)"
      by (rule none)
    show "fst (with_two_phase_open p cfg block w) = Inl FileNotFoundError
              \<and> files (snd (with_two_phase_open p cfg block w))
                  = (files w)(probe_of p := None, temporary_of p := None)
              \<and> open_files (snd (with_two_phase_open p cfg block w)) = open_files w"
      unfolding r using fw2 ow2 by simp
  qed
  show ?thesis
    unfolding Let_def
    by (rule conjI [OF c1 conjI [OF c2 conjI [OF c3 conjI [OF c4 conjI [OF c5 c6]]]]])
qed


text \<open>
  A read with only a backup on disk is served from the backup, with the warning; a read
  with nothing on disk fails and changes nothing; a read with only a stale probe file on
  disk fails and leaves no file.
\<close>

theorem read_only_backing_witness:
  "fst (probe (two_phase_open cache (Mode ModeR False)) (world_of [(backup_of cache, ''old'')]))
     = Inr False
   \<and> session_handle cache (Mode ModeR False) (world_of [(backup_of cache, ''old'')])
     = Inr \<lparr>fpath = backup_of cache, fwritable = False\<rparr>
   \<and> warnings (session_start cache (Mode ModeR False) (world_of [(backup_of cache, ''old'')]))
     = [ReadingFromBackup (backup_of cache)]
   \<and> fst (probe (two_phase_open cache (Mode ModeR False)) (world_of [])) = Inr False
   \<and> with_two_phase_open cache (Mode ModeR False) read_block (world_of [])
     = (Inl FileNotFoundError, world_of [])
   \<and> fst (probe (two_phase_open cache (Mode ModeR False)) (world_of [(probe_of cache, ''stale'')]))
     = Inr False
   \<and> files (snd (with_two_phase_open cache (Mode ModeR False) read_block
        (world_of [(probe_of cache, ''stale'')]))) (probe_of cache) = None"
proof -
  have h1: "fst (probe (two_phase_open cache (Mode ModeR False))
              (world_of [(backup_of cache, ''old'')])) = Inr False"
    by (simp add: probe_verdict)
  have h2: "fst (probe (two_phase_open cache (Mode ModeR False)) (world_of [])) = Inr False"
    by (simp add: probe_verdict)
  have s: "session_handle cache (Mode ModeR False) (world_of [(backup_of cache, ''old'')])
             = Inr \<lparr>fpath = backup_of cache, fwritable = False\<rparr>"
    by (simp add: eval_defs)
  have l: "warnings (session_start cache (Mode ModeR False) (world_of [(backup_of cache, ''old'')]))
             = [ReadingFromBackup (backup_of cache)]"
    by (simp add: eval_defs)
  have e: "\<not> exists_path cache (world_of []) \<and> \<not> exists_path (backup_of cache) (world_of [])
         \<and> \<not> exists_path (temporary_of cache) (world_of [])
         \<and> \<not> exists_path (probe_of cache) (world_of [])"
    by (simp add: exists_path_def world_of_def)
  have r: "with_two_phase_open cache (Mode ModeR False) read_block (world_of [])
             = (Inl FileNotFoundError, world_of [])"
    using read_only_backing [OF h2, of read_block, unfolded Let_def] e by blast
  have h3: "fst (probe (two_phase_open cache (Mode ModeR False))
              (world_of [(probe_of cache, ''stale'')])) = Inr False"
    by (simp add: probe_verdict)
  have e3: "\<not> exists_path cache (world_of [(probe_of cache, ''stale'')])
         \<and> \<not> exists_path (backup_of cache) (world_of [(probe_of cache, ''stale'')])"
    by (simp add: exists_path_def example_defs)
  have "files (snd (with_two_phase_open cache (Mode ModeR False) read_block
          (world_of [(probe_of cache, ''stale'')])))
        = (files (world_of [(probe_of cache, ''stale'')]))
            (probe_of cache := None, temporary_of cache := None)"
    using read_only_backing [OF h3, of read_block, unfolded Let_def] e3 by blast
  then have r3: "files (snd (with_two_phase_open cache (Mode ModeR False) read_block
          (world_of [(probe_of cache, ''stale'')]))) (probe_of cache) = None"
    by simp
  show ?thesis
    using h1 s l h2 r h3 r3 by blast
qed

subsection \<open>Successive writes\<close>

text \<open>
  C8. After two or more write sessions in a row on the same primary path, all of them
  successful, each under any configuration and from any starting state of the files: the
  primary holds the last content written, the backup the one before it, and the temporary
  does not exist. (A session whose block writes and succeeds had a writable handle: a
  read-only handle refuses the write. By \<open>write_session_succeeds\<close>, under \<^verbatim>\<open>'w'\<close> and
  \<^verbatim>\<open>'a'\<close> every such session succeeds.)
\<close>

theorem write_sequencing:
  assumes "fst (write_all p sessions w) = None" and "2 \<le> length sessions"
  shows "files (snd (write_all p sessions w)) p = Some (snd (last sessions))
       \<and> files (snd (write_all p sessions w)) (backup_of p)
           = Some (snd (sessions ! (length sessions - 2)))
       \<and> files (snd (write_all p sessions w)) (temporary_of p) = None"
proof -
  obtain a rest where sess: "sessions = a # rest" and rest: "rest \<noteq> []"
    using assms(2) by (cases sessions; cases "tl sessions") auto
  obtain cfg x where a: "a = (cfg, x)" by (cases a)
  let ?W = "with_two_phase_open p cfg (write_block x) w"
  obtain r where ok: "fst ?W = Inr r"
    using assms(1) sess a by (cases ?W; cases "fst ?W") auto
  have run: "write_all p sessions w = write_all p rest (snd ?W)"
    using sess a ok by (cases ?W) auto
  have fin: "write_all p rest (snd ?W) = (None, snd (write_all p sessions w))"
    using assms(1) run by (cases "write_all p rest (snd ?W)") auto
  have P: "files (snd ?W) p = Some x" and T: "files (snd ?W) (temporary_of p) = None"
    using write_session_success(1,2) [OF ok] by simp_all
  have chain: "files (snd (write_all p sessions w)) p = Some (snd (last rest))
        \<and> files (snd (write_all p sessions w)) (backup_of p)
            = Some (last (x # map snd (butlast rest)))
        \<and> files (snd (write_all p sessions w)) (temporary_of p) = None"
    using write_all_chain [OF fin rest T P] .
  have "last (x # map snd (butlast rest)) = last (map snd (butlast sessions))"
    using sess rest a by simp
  also have "\<dots> = snd (last (butlast sessions))"
    using sess rest by (simp add: last_map)
  also have "last (butlast sessions) = sessions ! (length sessions - 2)"
    using assms(2) by (rule last_butlast_nth)
  finally have B: "last (x # map snd (butlast rest)) = snd (sessions ! (length sessions - 2))" .
  show ?thesis
    using chain B sess rest by simp
qed

text \<open>Two writes on an empty directory, the first truncating, the second appending.\<close>

theorem write_sequencing_witness:
  "fst (write_all cache [(Mode ModeW False, ''one''), (Mode ModeA False, ''two'')] (world_of []))
     = None
   \<and> files (snd (write_all cache [(Mode ModeW False, ''one''), (Mode ModeA False, ''two'')]
        (world_of []))) cache = Some ''two''
   \<and> files (snd (write_all cache [(Mode ModeW False, ''one''), (Mode ModeA False, ''two'')]
        (world_of []))) (backup_of cache) = Some ''one''
   \<and> files (snd (write_all cache [(Mode ModeW False, ''one''), (Mode ModeA False, ''two'')]
        (world_of []))) (temporary_of cache) = None"
proof -
  have ok: "fst (write_all cache [(Mode ModeW False, ''one''), (Mode ModeA False, ''two'')]
              (world_of [])) = None"
    by (simp add: eval_defs)
  show ?thesis
    using write_sequencing [OF ok] ok by simp
qed


end
